theory Spec2Isabelle
  imports Complex_Main "HOL-Library.Char_ord" "HOL-Library.List_Lexorder"
begin

section \<open>JavaScript values used by the rental analytics code\<close>

text \<open>
  Finite numbers are modelled as exact reals; the rounding of IEEE doubles is outside the
  model. The numbers of spreadsheet cells and of the records built from them can also be
  \<open>NaN\<close> or an infinity (type \<open>jsnum\<close> below); the analytics of the comparison hook are
  stated for records whose numbers are finite. Strings are lists of 8-bit characters read as
  Latin-1 code points, so the euro sign of the currency pattern in \<open>parseNumber\<close> has no
  counterpart here.
\<close>

subsection \<open>Strings\<close>

text \<open>
  \<open>toLowerCase\<close> on Latin-1: the capital letters A to Z and U+00C0 to U+00DE (without the
  multiplication sign U+00D7) move up by 32, which sets the bit of value 32.
\<close>

definition isUpper :: "char \<Rightarrow> bool" where
  "isUpper c =
     ((CHR ''A'' \<le> c \<and> c \<le> CHR ''Z'') \<or> (CHR 0xC0 \<le> c \<and> c \<le> CHR 0xDE \<and> c \<noteq> CHR 0xD7))"

fun setBit5 :: "char \<Rightarrow> char" where
  "setBit5 (Char b0 b1 b2 b3 b4 b5 b6 b7) = Char b0 b1 b2 b3 b4 True b6 b7"

definition toLowerChar :: "char \<Rightarrow> char" where
  "toLowerChar c = (if isUpper c then setBit5 c else c)"

definition toLowerCase :: "string \<Rightarrow> string" where
  "toLowerCase s = map toLowerChar s"

text \<open>White space and line terminators of ECMAScript below code point 256.\<close>

definition isSpace :: "char \<Rightarrow> bool" where
  "isSpace c = (c \<in> set [CHR 0x09, CHR 0x0A, CHR 0x0B, CHR 0x0C, CHR 0x0D, CHR '' '', CHR 0xA0])"

definition trim :: "string \<Rightarrow> string" where
  "trim s = rev (dropWhile isSpace (rev (dropWhile isSpace s)))"

definition isDigit :: "char \<Rightarrow> bool" where
  "isDigit c = (CHR ''0'' \<le> c \<and> c \<le> CHR ''9'')"

definition digitVal :: "char \<Rightarrow> nat" where
  "digitVal c = of_char c - 48"

text \<open>\<open>parseInt\<close> on a string of decimal digits.\<close>

definition digitsVal :: "string \<Rightarrow> nat" where
  "digitsVal ds = foldl (\<lambda>acc c. 10 * acc + digitVal c) 0 ds"

fun startsWith :: "string \<Rightarrow> string \<Rightarrow> bool" where
  "startsWith s [] = True"
| "startsWith [] (p # ps) = False"
| "startsWith (c # cs) (p # ps) = (c = p \<and> startsWith cs ps)"

definition endsWith :: "string \<Rightarrow> string \<Rightarrow> bool" where
  "endsWith s p = startsWith (rev s) (rev p)"

fun includesStr :: "string \<Rightarrow> string \<Rightarrow> bool" where
  "includesStr [] p = (p = [])"
| "includesStr (c # cs) p = (startsWith (c # cs) p \<or> includesStr cs p)"

text \<open>\<open>str.split(sep)\<close> for a one-character separator.\<close>

fun splitOn :: "char \<Rightarrow> string \<Rightarrow> string list" where
  "splitOn sep [] = [[]]"
| "splitOn sep (c # cs) =
     (if c = sep then [] # splitOn sep cs
      else (case splitOn sep cs of p # ps \<Rightarrow> (c # p) # ps | [] \<Rightarrow> [[c]]))"

text \<open>\<open>str.replace(a, b)\<close> with string arguments replaces the first occurrence only.\<close>

fun replaceFirst :: "char \<Rightarrow> char \<Rightarrow> string \<Rightarrow> string" where
  "replaceFirst a b [] = []"
| "replaceFirst a b (c # cs) = (if c = a then b # cs else c # replaceFirst a b cs)"

subsection \<open>Dates\<close>

text \<open>
  A \<open>Date\<close> is either invalid (its time value is \<open>NaN\<close>) or a local calendar day, kept as
  the number of days since 1 January 1970 in the proleptic Gregorian calendar. The time of
  day plays no role in the code. The functions below are the day-number arithmetic behind
  the built-in \<open>MakeDay\<close>, \<open>getFullYear\<close>, \<open>getMonth\<close> and \<open>getDate\<close>; years are counted
  from 1 March so that the leap day comes last.
\<close>

datatype jsdate = InvalidDate | DateAt int

definition dayOfMarchYear :: "int \<Rightarrow> int \<Rightarrow> int" where
  "dayOfMarchYear m d = (153 * (if m > 2 then m - 3 else m + 9) + 2) div 5 + d - 1"

definition daysFromMarchYear :: "int \<Rightarrow> int \<Rightarrow> int" where
  "daysFromMarchYear y doy =
     (y div 400) * 146097
       + ((y mod 400) * 365 + (y mod 400) div 4 - (y mod 400) div 100 + doy) - 719468"

text \<open>Day number of day \<open>d\<close> of month \<open>m\<close> (1 to 12) of year \<open>y\<close>; \<open>d\<close> may run over.\<close>

definition daysFromCivil :: "int \<Rightarrow> int \<Rightarrow> int \<Rightarrow> int" where
  "daysFromCivil y m d = daysFromMarchYear (if m \<le> 2 then y - 1 else y) (dayOfMarchYear m d)"

definition civilOfMonth :: "int \<Rightarrow> int \<Rightarrow> int \<Rightarrow> int \<times> int \<times> int" where
  "civilOfMonth y mp doy =
     (if mp < 10 then (y, mp + 3, doy - (153 * mp + 2) div 5 + 1)
      else (y + 1, mp - 9, doy - (153 * mp + 2) div 5 + 1))"

definition civilOfYearDay :: "int \<Rightarrow> int \<Rightarrow> int \<times> int \<times> int" where
  "civilOfYearDay y doy = civilOfMonth y ((5 * doy + 2) div 153) doy"

definition civilOfQuad :: "int \<Rightarrow> int \<Rightarrow> int \<times> int \<times> int" where
  "civilOfQuad y d = civilOfYearDay (y + min (d div 365) 3) (d - min (d div 365) 3 * 365)"

definition civilOfCentury :: "int \<Rightarrow> int \<Rightarrow> int \<times> int \<times> int" where
  "civilOfCentury y d = civilOfQuad (y + (d div 1461) * 4) (d mod 1461)"

definition civilOfEra :: "int \<Rightarrow> int \<Rightarrow> int \<times> int \<times> int" where
  "civilOfEra era d =
     civilOfCentury (era * 400 + min (d div 36524) 3 * 100) (d - min (d div 36524) 3 * 36524)"

text \<open>Year, month (1 to 12) and day of the month of a day number.\<close>

definition civilFromDays :: "int \<Rightarrow> int \<times> int \<times> int" where
  "civilFromDays z = civilOfEra ((z + 719468) div 146097) ((z + 719468) mod 146097)"

text \<open>The getters answer \<open>NaN\<close> on an invalid date, here \<open>None\<close>. Months count from 0.\<close>

fun getFullYear :: "jsdate \<Rightarrow> int option" where
  "getFullYear InvalidDate = None"
| "getFullYear (DateAt z) = Some (fst (civilFromDays z))"

fun getMonth :: "jsdate \<Rightarrow> int option" where
  "getMonth InvalidDate = None"
| "getMonth (DateAt z) = Some (fst (snd (civilFromDays z)) - 1)"

fun getDate :: "jsdate \<Rightarrow> int option" where
  "getDate InvalidDate = None"
| "getDate (DateAt z) = Some (snd (snd (civilFromDays z)))"

text \<open>
  \<open>new Date(year, monthIndex, day)\<close> on integers: a year from 0 to 99 means 1900 + year,
  a month index outside 0..11 carries into the year, the day counts on from the first of
  the month, and a time value beyond 100,000,000 days from the epoch is invalid.
\<close>

definition timeClip :: "int \<Rightarrow> jsdate" where
  "timeClip z = (if \<bar>z\<bar> \<le> 100000000 then DateAt z else InvalidDate)"

definition makeDay :: "int \<Rightarrow> int \<Rightarrow> int \<Rightarrow> int" where
  "makeDay yr m d = daysFromCivil (yr + m div 12) (m mod 12 + 1) 1 + d - 1"

definition fullYear :: "int \<Rightarrow> int" where
  "fullYear y = (if 0 \<le> y \<and> y \<le> 99 then 1900 + y else y)"

definition newDate :: "int \<Rightarrow> int \<Rightarrow> int \<Rightarrow> jsdate" where
  "newDate y m d = timeClip (makeDay (fullYear y) m d)"

subsection \<open>Spreadsheet cells and the built-ins left to the engine\<close>

text \<open>
  A number as a cell or a parsed field carries it: a finite value, one of the two
  infinities, or \<open>NaN\<close>. The comparisons with 0 are those of the language, false whenever
  an operand is \<open>NaN\<close>.
\<close>

datatype jsnum = NaN | PosInfinity | NegInfinity | Num real

text \<open>\<open>n <= 0\<close>\<close>

fun leZero :: "jsnum \<Rightarrow> bool" where
  "leZero NaN = False"
| "leZero PosInfinity = False"
| "leZero NegInfinity = True"
| "leZero (Num x) = (x \<le> 0)"

text \<open>\<open>n > 0\<close>\<close>

fun gtZero :: "jsnum \<Rightarrow> bool" where
  "gtZero NaN = False"
| "gtZero PosInfinity = True"
| "gtZero NegInfinity = False"
| "gtZero (Num x) = (0 < x)"

text \<open>A number is falsy when it is 0 or \<open>NaN\<close>.\<close>

fun numTruthy :: "jsnum \<Rightarrow> bool" where
  "numTruthy NaN = False"
| "numTruthy PosInfinity = True"
| "numTruthy NegInfinity = True"
| "numTruthy (Num x) = (x \<noteq> 0)"

datatype jsval =
    Undefined
  | Null
  | JBool bool
  | JNum jsnum
  | JStr string
  | JDate jsdate

fun truthy :: "jsval \<Rightarrow> bool" where
  "truthy Undefined = False"
| "truthy Null = False"
| "truthy (JBool b) = b"
| "truthy (JNum n) = numTruthy n"
| "truthy (JStr s) = (s \<noteq> [])"
| "truthy (JDate d) = True"

text \<open>
  What the engine decides and the repository does not: the text of a number and of a date,
  the generic \<open>new Date(text)\<close> parse, and the locale's month label.
\<close>

record js_runtime =
  numToString :: "jsnum \<Rightarrow> string"
  dateToString :: "jsdate \<Rightarrow> string"
  dateParse :: "string \<Rightarrow> jsdate"
  monthYearLabel :: "jsdate \<Rightarrow> string"

fun toStr :: "js_runtime \<Rightarrow> jsval \<Rightarrow> string" where
  "toStr rt Undefined = ''undefined''"
| "toStr rt Null = ''null''"
| "toStr rt (JBool b) = (if b then ''true'' else ''false'')"
| "toStr rt (JNum n) = numToString rt n"
| "toStr rt (JStr s) = s"
| "toStr rt (JDate d) = dateToString rt d"

section \<open>The data model of \<open>types.ts\<close>\<close>

text \<open>
  The number type of the fields \<open>days\<close> and \<open>charge\<close> is a parameter: \<open>jsnum\<close> for the
  records the ingestion worker builds, \<open>real\<close> for the records the comparison hook reads.
\<close>

record 'n RentalRecord =
  rec_id :: nat
  station :: string
  stationKey :: string
  group :: string
  groupKey :: string
  date :: jsdate
  monthKey :: string
  displayDate :: string
  day :: int
  days :: 'n
  charge :: 'n
  year :: int

record 'n ProcessedData =
  records :: "'n RentalRecord list"
  stations :: "string list"
  groups :: "string list"
  months :: "string list"
  totalRecords :: nat
  year :: int

record MetricSet =
  revenue :: real
  days :: real
  count :: nat
  rate :: real
  hasData :: bool

record VarianceSet =
  var_revenue :: "real option"
  var_days :: "real option"
  var_rate :: "real option"

section \<open>The comparison hook: \<open>useComparisonData\<close>\<close>

datatype DateRangeType = RangeAll | Range_1_10 | Range_11_20 | Range_21_End

definition emptyMetric :: MetricSet where
  "emptyMetric = \<lparr> revenue = 0, MetricSet.days = 0, count = 0, rate = 0, hasData = False \<rparr>"

text \<open>The selection keys: \<open>null\<close> (here \<open>None\<close>) stands for no filter.\<close>

definition targetStationKey :: "string \<Rightarrow> string option" where
  "targetStationKey selectedStation =
     (if selectedStation = ''All'' then None else Some (trim (toLowerCase selectedStation)))"

definition targetGroupKeys :: "string list \<Rightarrow> string list option" where
  "targetGroupKeys selectedGroups =
     (if ''All'' \<in> set selectedGroups then None
      else Some (map (\<lambda>g. trim (toLowerCase g)) selectedGroups))"

text \<open>
  The three early returns of the \<open>forEach\<close> callback. \<open>targetStationKey && ...\<close> tests the
  key for truthiness, so an empty key filters nothing; the key set is an object and always
  truthy.
\<close>

definition failsStation :: "string option \<Rightarrow> real RentalRecord \<Rightarrow> bool" where
  "failsStation target r =
     (case target of None \<Rightarrow> False | Some k \<Rightarrow> k \<noteq> [] \<and> stationKey r \<noteq> k)"

definition failsGroup :: "string list option \<Rightarrow> real RentalRecord \<Rightarrow> bool" where
  "failsGroup target r = (case target of None \<Rightarrow> False | Some ks \<Rightarrow> groupKey r \<notin> set ks)"

definition failsDateRange :: "DateRangeType \<Rightarrow> real RentalRecord \<Rightarrow> bool" where
  "failsDateRange rng r =
     ((rng = Range_1_10 \<and> (day r < 1 \<or> day r > 10)) \<or>
      (rng = Range_11_20 \<and> (day r < 11 \<or> day r > 20)) \<or>
      (rng = Range_21_End \<and> day r < 21))"

text \<open>A record reaches the aggregation when none of the three early returns fires.\<close>

definition passes ::
  "string option \<Rightarrow> string list option \<Rightarrow> DateRangeType \<Rightarrow> real RentalRecord \<Rightarrow> bool" where
  "passes ts tg rng r = (\<not> failsStation ts r \<and> \<not> failsGroup tg r \<and> \<not> failsDateRange rng r)"

definition addRecord :: "MetricSet \<Rightarrow> real RentalRecord \<Rightarrow> MetricSet" where
  "addRecord m r =
     m\<lparr> revenue := revenue m + charge r,
        MetricSet.days := MetricSet.days m + RentalRecord.days r,
        count := count m + 1,
        hasData := True \<rparr>"

text \<open>
  \<open>months[mIndex]\<close> is \<open>undefined\<close> unless the index is one of the twelve keys, and the
  update \<open>m.revenue += ...\<close> then throws a TypeError: the result is \<open>None\<close>.
\<close>

definition aggregate :: "MetricSet list \<Rightarrow> real RentalRecord \<Rightarrow> MetricSet list option" where
  "aggregate ms r =
     (case getMonth (date r) of
        None \<Rightarrow> None
      | Some mIndex \<Rightarrow>
          if 0 \<le> mIndex \<and> nat mIndex < length ms
          then Some (ms[nat mIndex := addRecord (ms ! nat mIndex) r])
          else None)"

fun forEachRecord ::
  "string option \<Rightarrow> string list option \<Rightarrow> DateRangeType \<Rightarrow> MetricSet list \<Rightarrow>
   real RentalRecord list \<Rightarrow> MetricSet list option" where
  "forEachRecord ts tg rng ms [] = Some ms"
| "forEachRecord ts tg rng ms (r # rs) =
     (if failsStation ts r then forEachRecord ts tg rng ms rs
      else if failsGroup tg r then forEachRecord ts tg rng ms rs
      else if failsDateRange rng r then forEachRecord ts tg rng ms rs
      else (case aggregate ms r of
              None \<Rightarrow> None
            | Some ms' \<Rightarrow> forEachRecord ts tg rng ms' rs))"

definition calcRate :: "MetricSet \<Rightarrow> MetricSet" where
  "calcRate m = (if MetricSet.days m > 0 then m\<lparr> rate := revenue m / MetricSet.days m \<rparr> else m)"

definition processYear ::
  "real ProcessedData option \<Rightarrow> string \<Rightarrow> string list \<Rightarrow> DateRangeType \<Rightarrow> MetricSet list option" where
  "processYear data selectedStation selectedGroups selectedDateRange =
     (case data of
        None \<Rightarrow> Some (replicate 12 emptyMetric)
      | Some d \<Rightarrow>
          map_option (map calcRate)
            (forEachRecord (targetStationKey selectedStation) (targetGroupKeys selectedGroups)
               selectedDateRange (replicate 12 emptyMetric) (records d)))"

text \<open>\<open>calcVariance\<close> returns \<open>number | null\<close>; \<open>None\<close> is \<open>null\<close>.\<close>

definition calcVariance :: "real \<Rightarrow> real \<Rightarrow> bool \<Rightarrow> bool \<Rightarrow> real option" where
  "calcVariance p c pHasData cHasData =
     (if \<not> cHasData then None
      else if c = 0 then (if pHasData \<and> p = 0 then Some 0 else None)
      else if \<not> pHasData then None
      else Some ((p - c) / c))"

text \<open>The variance of one aligned month or of the totals, as both call sites build it.\<close>

definition varianceOf :: "MetricSet \<Rightarrow> MetricSet \<Rightarrow> VarianceSet" where
  "varianceOf p c =
     \<lparr> var_revenue = calcVariance (revenue p) (revenue c) (hasData p) (hasData c),
       var_days = calcVariance (MetricSet.days p) (MetricSet.days c) (hasData p) (hasData c),
       var_rate = calcVariance (rate p) (rate c) (hasData p) (hasData c) \<rparr>"

text \<open>
  What the specification says of the per-year reduction, to be compared with
  \<open>processYear\<close>: the filters a record has to pass, and the MetricSet of a month.
\<close>

definition spec_passesStation :: "string \<Rightarrow> real RentalRecord \<Rightarrow> bool" where
  "spec_passesStation selectedStation r =
     (selectedStation = ''All'' \<or> stationKey r = trim (toLowerCase selectedStation))"

definition spec_passesGroup :: "string list \<Rightarrow> real RentalRecord \<Rightarrow> bool" where
  "spec_passesGroup selectedGroups r =
     (''All'' \<in> set selectedGroups \<or>
      groupKey r \<in> set (map (\<lambda>g. trim (toLowerCase g)) selectedGroups))"

fun spec_passesDayRange :: "DateRangeType \<Rightarrow> real RentalRecord \<Rightarrow> bool" where
  "spec_passesDayRange RangeAll r = True"
| "spec_passesDayRange Range_1_10 r = (1 \<le> day r \<and> day r \<le> 10)"
| "spec_passesDayRange Range_11_20 r = (11 \<le> day r \<and> day r \<le> 20)"
| "spec_passesDayRange Range_21_End r = (21 \<le> day r)"

definition spec_contributes ::
  "string \<Rightarrow> string list \<Rightarrow> DateRangeType \<Rightarrow> nat \<Rightarrow> real RentalRecord \<Rightarrow> bool" where
  "spec_contributes selectedStation selectedGroups rng i r =
     (spec_passesStation selectedStation r \<and> spec_passesGroup selectedGroups r \<and>
      spec_passesDayRange rng r \<and> getMonth (date r) = Some (int i))"

definition spec_rate :: "real \<Rightarrow> real \<Rightarrow> real" where
  "spec_rate sumRevenue sumDays = (if sumDays > 0 then sumRevenue / sumDays else 0)"

definition spec_month ::
  "string \<Rightarrow> string list \<Rightarrow> DateRangeType \<Rightarrow> real RentalRecord list \<Rightarrow> nat \<Rightarrow> MetricSet" where
  "spec_month selectedStation selectedGroups rng rs i =
     \<lparr> revenue = sum_list (map charge (filter (spec_contributes selectedStation selectedGroups rng i) rs)),
       MetricSet.days = sum_list (map RentalRecord.days (filter (spec_contributes selectedStation selectedGroups rng i) rs)),
       count = length (filter (spec_contributes selectedStation selectedGroups rng i) rs),
       rate = spec_rate
                (sum_list (map charge (filter (spec_contributes selectedStation selectedGroups rng i) rs)))
                (sum_list (map RentalRecord.days (filter (spec_contributes selectedStation selectedGroups rng i) rs))),
       hasData = (filter (spec_contributes selectedStation selectedGroups rng i) rs \<noteq> []) \<rparr>"

text \<open>
  A sample Dataset: two rentals in January 2024 and one in February 2024, all at one
  station (day numbers 19727, 19742 and 19763).
\<close>

definition sampleRecord :: "nat \<Rightarrow> int \<Rightarrow> string \<Rightarrow> int \<Rightarrow> real \<Rightarrow> real \<Rightarrow> real RentalRecord" where
  "sampleRecord i z mk dd dys chg =
     \<lparr> rec_id = i, station = ''Athens'', stationKey = ''athens'', group = ''B'', groupKey = ''b'',
       date = DateAt z, monthKey = mk, displayDate = ''month'', day = dd,
       RentalRecord.days = dys, charge = chg, RentalRecord.year = 2024 \<rparr>"

definition sampleData :: "real ProcessedData" where
  "sampleData =
     \<lparr> records =
         [sampleRecord 0 19727 ''2024-01'' 5 2 100,
          sampleRecord 1 19763 ''2024-02'' 10 1 50,
          sampleRecord 3 19742 ''2024-01'' 20 2 100],
       stations = [''Athens''], groups = [''B''], months = [''2024-01'', ''2024-02''],
       totalRecords = 3, ProcessedData.year = 2024 \<rparr>"

section \<open>The ingestion worker: scalar parsers and \<open>processRawData\<close>\<close>

subsection \<open>\<open>parseDate\<close>\<close>

text \<open>
  The pattern \<open>/^(\d{1,2})[\/\-\.](\d{1,2})[\/\-\.](\d{4})/\<close>. One or two digits have to be
  followed at once by a separator, so the greedy \<open>\d{1,2}\<close> takes two digits exactly when
  the third character is the separator.
\<close>

definition isSep :: "char \<Rightarrow> bool" where
  "isSep c = (c \<in> set ''/-.'')"

fun matchDigitsSep :: "string \<Rightarrow> (string \<times> string) option" where
  "matchDigitsSep (a # b # c # rest) =
     (if isDigit a \<and> isDigit b \<and> isSep c then Some ([a, b], rest)
      else if isDigit a \<and> isSep b then Some ([a], c # rest)
      else None)"
| "matchDigitsSep [a, b] = (if isDigit a \<and> isSep b then Some ([a], []) else None)"
| "matchDigitsSep [a] = None"
| "matchDigitsSep [] = None"

definition matchYear :: "string \<Rightarrow> string option" where
  "matchYear s = (if 4 \<le> length s \<and> list_all isDigit (take 4 s) then Some (take 4 s) else None)"

definition dmyMatch :: "string \<Rightarrow> (string \<times> string \<times> string) option" where
  "dmyMatch str =
     (case matchDigitsSep str of
        None \<Rightarrow> None
      | Some (d, rest) \<Rightarrow>
          (case matchDigitsSep rest of
             None \<Rightarrow> None
           | Some (m, rest') \<Rightarrow>
               (case matchYear rest' of None \<Rightarrow> None | Some y \<Rightarrow> Some (d, m, y))))"

text \<open>\<open>isNaN(date.getTime()) ? null : date\<close>\<close>

fun validOrNull :: "jsdate \<Rightarrow> jsdate option" where
  "validOrNull InvalidDate = None"
| "validOrNull (DateAt z) = Some (DateAt z)"

text \<open>\<open>new Date(parseInt(y), parseInt(m) - 1, parseInt(d))\<close> on the three groups of the match.\<close>

fun dateOfMatch :: "string \<times> string \<times> string \<Rightarrow> jsdate" where
  "dateOfMatch (d, m, y) = newDate (int (digitsVal y)) (int (digitsVal m) - 1) (int (digitsVal d))"

definition parseDateText :: "js_runtime \<Rightarrow> string \<Rightarrow> jsdate option" where
  "parseDateText rt str =
     (case dmyMatch str of
        Some dmy \<Rightarrow> validOrNull (dateOfMatch dmy)
      | None \<Rightarrow> validOrNull (dateParse rt str))"

fun parseDate :: "js_runtime \<Rightarrow> jsval \<Rightarrow> jsdate option" where
  "parseDate rt (JDate d) = validOrNull d"
| "parseDate rt val = (if \<not> truthy val then None else parseDateText rt (trim (toStr rt val)))"

subsection \<open>\<open>parseNumber\<close>\<close>

text \<open>
  \<open>parseFloat\<close> reads the longest prefix that is a decimal literal, after leading white
  space; \<open>None\<close> is \<open>NaN\<close>. Exponents and \<open>Infinity\<close> need a letter, and \<open>parseNumber\<close>
  removes every letter before it calls \<open>parseFloat\<close>, so they are left out.
\<close>

definition signOf :: "string \<Rightarrow> real \<times> string" where
  "signOf s =
     (case s of
        [] \<Rightarrow> (1, [])
      | c # cs \<Rightarrow> if c = CHR ''-'' then (- 1, cs) else if c = CHR ''+'' then (1, cs) else (1, s))"

definition fractionDigits :: "string \<Rightarrow> string" where
  "fractionDigits r =
     (case r of [] \<Rightarrow> [] | c # cs \<Rightarrow> if c = CHR ''.'' then takeWhile isDigit cs else [])"

definition decimalValue :: "string \<Rightarrow> string \<Rightarrow> real" where
  "decimalValue ip fp = real (digitsVal ip) + real (digitsVal fp) / 10 ^ length fp"

definition parseUnsigned :: "string \<Rightarrow> real option" where
  "parseUnsigned s =
     (if takeWhile isDigit s = [] \<and> fractionDigits (dropWhile isDigit s) = [] then None
      else Some (decimalValue (takeWhile isDigit s) (fractionDigits (dropWhile isDigit s))))"

definition parseFloat :: "string \<Rightarrow> real option" where
  "parseFloat s =
     (case signOf (dropWhile isSpace s) of
        (sg, rest) \<Rightarrow> map_option (\<lambda>v. sg * v) (parseUnsigned rest))"

text \<open>The character class \<open>[\<euro>$\<pounds>a-zA-Z\s]\<close> without the euro sign.\<close>

definition isCurrencyOrText :: "char \<Rightarrow> bool" where
  "isCurrencyOrText c =
     (c = CHR ''$'' \<or> c = CHR 0xA3 \<or> (CHR ''a'' \<le> c \<and> c \<le> CHR ''z'') \<or>
      (CHR ''A'' \<le> c \<and> c \<le> CHR ''Z'') \<or> isSpace c)"

definition stripCurrency :: "string \<Rightarrow> string" where
  "stripCurrency s = filter (\<lambda>c. \<not> isCurrencyOrText c) s"

definition removeDots :: "string \<Rightarrow> string" where
  "removeDots s = filter (\<lambda>c. c \<noteq> CHR ''.'') s"

definition resolveSeparators :: "string \<Rightarrow> string" where
  "resolveSeparators s =
     (if CHR '','' \<in> set s then replaceFirst CHR '','' CHR ''.'' (removeDots s)
      else if CHR ''.'' \<in> set s then
        (if length (splitOn CHR ''.'' s) > 2 then removeDots s
         else if length (splitOn CHR ''.'' s) = 2 \<and> length (splitOn CHR ''.'' s ! 1) = 3
              then removeDots s
         else s)
      else s)"

definition isNegative :: "string \<Rightarrow> bool" where
  "isNegative str = (startsWith str ''('' \<and> endsWith str '')'')"

text \<open>\<open>str.slice(1, -1)\<close>\<close>

definition sliceInner :: "string \<Rightarrow> string" where
  "sliceInner str = butlast (tl str)"

definition cleanNumber :: "string \<Rightarrow> string" where
  "cleanNumber str =
     resolveSeparators (stripCurrency (if isNegative str then sliceInner str else str))"

definition parseNumberText :: "string \<Rightarrow> real" where
  "parseNumberText str =
     (if str = [] then 0
      else (case parseFloat (cleanNumber str) of
              None \<Rightarrow> 0
            | Some num \<Rightarrow> if isNegative str then - num else num))"

text \<open>
  A cell that is a number already is returned as it is, \<open>NaN\<close> and the infinities
  included; every other cell gives a finite number.
\<close>

fun parseNumber :: "js_runtime \<Rightarrow> jsval \<Rightarrow> jsnum" where
  "parseNumber rt (JNum n) = n"
| "parseNumber rt val =
     (if \<not> truthy val then Num 0 else Num (parseNumberText (trim (toStr rt val))))"

subsection \<open>Column resolution\<close>

text \<open>
  A row of \<open>sheet_to_json\<close> is an object; it is kept as the list of its properties in the
  order \<open>Object.keys\<close> enumerates them. Reading a missing property gives \<open>undefined\<close>.
\<close>

type_synonym row = "(string \<times> jsval) list"

definition cell :: "row \<Rightarrow> string \<Rightarrow> jsval" where
  "cell r key = (case map_of r key of None \<Rightarrow> Undefined | Some v \<Rightarrow> v)"

definition keyMatches :: "string \<Rightarrow> string \<Rightarrow> bool" where
  "keyMatches candidate key =
     (trim (toLowerCase key) = candidate \<or> includesStr (trim (toLowerCase key)) candidate)"

text \<open>\<open>if (foundKey) return foundKey\<close>: an empty key is falsy and the search goes on.\<close>

fun findColumnKey :: "row \<Rightarrow> string list \<Rightarrow> string option" where
  "findColumnKey r [] = None"
| "findColumnKey r (candidate # candidates) =
     (case find (keyMatches candidate) (map fst r) of
        None \<Rightarrow> findColumnKey r candidates
      | Some foundKey \<Rightarrow> if foundKey \<noteq> [] then Some foundKey else findColumnKey r candidates)"

definition stationCandidates :: "string list" where
  "stationCandidates = [''station'', ''check-out station'', ''checkout station'']"

definition dateCandidates :: "string list" where
  "dateCandidates = [''check-out date'', ''checkout date'', ''date'']"

definition daysCandidates :: "string list" where
  "daysCandidates = [''days'', ''duration'']"

definition chargeCandidates :: "string list" where
  "chargeCandidates = [''rental charge'', ''amount'', ''charge'', ''price'']"

definition groupCandidates :: "string list" where
  "groupCandidates = [''charged group'', ''car group'', ''group'', ''category'']"

record columns =
  stationCol :: "string option"
  dateCol :: "string option"
  daysCol :: "string option"
  chargeCol :: "string option"
  groupCol :: "string option"

definition resolveColumns :: "row \<Rightarrow> columns" where
  "resolveColumns firstRow =
     \<lparr> stationCol = findColumnKey firstRow stationCandidates,
       dateCol = findColumnKey firstRow dateCandidates,
       daysCol = findColumnKey firstRow daysCandidates,
       chargeCol = findColumnKey firstRow chargeCandidates,
       groupCol = findColumnKey firstRow groupCandidates \<rparr>"

subsection \<open>\<open>processRawData\<close>\<close>

text \<open>Decimal text of an integer, and \<open>padStart(2, '0')\<close>.\<close>

fun natToString :: "nat \<Rightarrow> string" where
  "natToString n =
     (if n < 10 then [''0123456789'' ! n]
      else natToString (n div 10) @ [''0123456789'' ! (n mod 10)])"

definition intToString :: "int \<Rightarrow> string" where
  "intToString i = (if i < 0 then CHR ''-'' # natToString (nat (- i)) else natToString (nat i))"

definition padStart2 :: "string \<Rightarrow> string" where
  "padStart2 s = replicate (2 - length s) CHR ''0'' @ s"

text \<open>\<open>a || b\<close>\<close>

definition orElse :: "jsval \<Rightarrow> jsval \<Rightarrow> jsval" where
  "orElse a b = (if truthy a then a else b)"

text \<open>\<open>set.add(x)\<close> on a Set kept in insertion order.\<close>

definition setAdd :: "string \<Rightarrow> string list \<Rightarrow> string list" where
  "setAdd x xs = (if x \<in> set xs then xs else xs @ [x])"

record ingest =
  recordsAcc :: "jsnum RentalRecord list"
  stationSet :: "string list"
  groupSet :: "string list"
  monthSet :: "string list"
  dataYear :: int

definition ingestStart :: ingest where
  "ingestStart = \<lparr> recordsAcc = [], stationSet = [], groupSet = [], monthSet = [], dataYear = 0 \<rparr>"

definition groupOf :: "js_runtime \<Rightarrow> string option \<Rightarrow> row \<Rightarrow> string" where
  "groupOf rt gc r =
     (case gc of
        None \<Rightarrow> ''Unknown''
      | Some gk \<Rightarrow> trim (toStr rt (orElse (cell r gk) (JStr ''Unknown''))))"

definition monthKeyOf :: "int \<Rightarrow> string" where
  "monthKeyOf z =
     intToString (fst (civilFromDays z)) @ ''-'' @ padStart2 (intToString (fst (snd (civilFromDays z))))"

text \<open>The part of the callback after the three skips: one accepted row.\<close>

definition acceptRow ::
  "js_runtime \<Rightarrow> nat \<Rightarrow> string \<Rightarrow> string \<Rightarrow> int \<Rightarrow> jsnum \<Rightarrow> jsnum \<Rightarrow> ingest \<Rightarrow> ingest" where
  "acceptRow rt index st grp z dys chg acc =
     \<lparr> recordsAcc = recordsAcc acc @
         [\<lparr> rec_id = index,
            station = st,
            stationKey = trim (toLowerCase st),
            group = grp,
            groupKey = trim (toLowerCase grp),
            date = DateAt z,
            monthKey = monthKeyOf z,
            displayDate = monthYearLabel rt (DateAt z),
            day = snd (snd (civilFromDays z)),
            RentalRecord.days = dys,
            charge = chg,
            RentalRecord.year = fst (civilFromDays z) \<rparr>],
       stationSet = setAdd st (stationSet acc),
       groupSet = setAdd grp (groupSet acc),
       monthSet = setAdd (monthKeyOf z) (monthSet acc),
       dataYear = (if index = 0 then fst (civilFromDays z) else dataYear acc) \<rparr>"

text \<open>
  The callback of \<open>data.forEach\<close>. \<open>parseDate\<close> never answers an invalid Date, so its
  \<open>InvalidDate\<close> case below is never taken. The duration guard is \<open>days <= 0\<close>, which is
  false for \<open>NaN\<close>.
\<close>

definition processRow :: "js_runtime \<Rightarrow> columns \<Rightarrow> nat \<Rightarrow> row \<Rightarrow> ingest \<Rightarrow> ingest" where
  "processRow rt cols index r acc =
     (case (stationCol cols, dateCol cols, daysCol cols, chargeCol cols) of
        (Some sk, Some dk, Some yk, Some ck) \<Rightarrow>
          if trim (toStr rt (orElse (cell r sk) (JStr []))) = [] then acc
          else (case parseDate rt (cell r dk) of
                  None \<Rightarrow> acc
                | Some InvalidDate \<Rightarrow> acc
                | Some (DateAt z) \<Rightarrow>
                    if leZero (parseNumber rt (cell r yk)) then acc
                    else acceptRow rt index
                           (trim (toStr rt (orElse (cell r sk) (JStr []))))
                           (groupOf rt (groupCol cols) r) z
                           (parseNumber rt (cell r yk)) (parseNumber rt (cell r ck)) acc)
      | _ \<Rightarrow> acc)"

fun forEachRow :: "js_runtime \<Rightarrow> columns \<Rightarrow> nat \<Rightarrow> row list \<Rightarrow> ingest \<Rightarrow> ingest" where
  "forEachRow rt cols index [] acc = acc"
| "forEachRow rt cols index (r # rs) acc =
     forEachRow rt cols (Suc index) rs (processRow rt cols index r acc)"

definition finish :: "ingest \<Rightarrow> jsnum ProcessedData" where
  "finish acc =
     \<lparr> records = recordsAcc acc,
       stations = sort (stationSet acc),
       groups = sort (groupSet acc),
       months = sort (monthSet acc),
       totalRecords = length (recordsAcc acc),
       ProcessedData.year = dataYear acc \<rparr>"

definition emptyData :: "'n ProcessedData" where
  "emptyData =
     \<lparr> records = [], stations = [], groups = [], months = [], totalRecords = 0,
       ProcessedData.year = 0 \<rparr>"

definition processRawData :: "js_runtime \<Rightarrow> row list \<Rightarrow> jsnum ProcessedData" where
  "processRawData rt data =
     (case data of
        [] \<Rightarrow> emptyData
      | firstRow # rest \<Rightarrow> finish (forEachRow rt (resolveColumns firstRow) 0 data ingestStart))"

text \<open>
  The rows the callback keeps: the four required columns are resolved and none of the
  three skips fires, that is, the station is not blank, the date parses and the duration
  is not \<open><= 0\<close>.
\<close>

definition rowKept :: "js_runtime \<Rightarrow> columns \<Rightarrow> row \<Rightarrow> bool" where
  "rowKept rt cols r =
     (case (stationCol cols, dateCol cols, daysCol cols, chargeCol cols) of
        (Some sk, Some dk, Some yk, Some ck) \<Rightarrow>
          trim (toStr rt (orElse (cell r sk) (JStr []))) \<noteq> [] \<and>
          parseDate rt (cell r dk) \<noteq> None \<and>
          \<not> leZero (parseNumber rt (cell r yk))
      | _ \<Rightarrow> False)"

text \<open>What the three skips leave true of a record the callback builds.\<close>

definition keptRecord :: "jsnum RentalRecord \<Rightarrow> bool" where
  "keptRecord r =
     (station r \<noteq> [] \<and> date r \<noteq> InvalidDate \<and> \<not> leZero (RentalRecord.days r))"

text \<open>
  The invariant the specification states for every persisted record: a station that is
  not empty, a valid date and \<open>days > 0\<close>.
\<close>

definition spec_validRecord :: "jsnum RentalRecord \<Rightarrow> bool" where
  "spec_validRecord r =
     (station r \<noteq> [] \<and> date r \<noteq> InvalidDate \<and> gtZero (RentalRecord.days r))"

subsection \<open>The worker's reply and its callers\<close>

text \<open>
  The worker hashes \<open>JSON.stringify(processed.records)\<close> with SHA-256; the digest of a
  record sequence is a parameter. The reply is built from the rows \<open>sheet_to_json\<close> gives;
  nothing in \<open>processRawData\<close> throws, so the \<open>catch\<close> branch belongs to the spreadsheet
  reader alone.
\<close>

datatype WorkerResponse = SUCCESS "jsnum ProcessedData" string | ERROR string

definition onmessage ::
  "(jsnum RentalRecord list \<Rightarrow> string) \<Rightarrow> js_runtime \<Rightarrow> row list \<Rightarrow> WorkerResponse" where
  "onmessage digest rt jsonData =
     SUCCESS (processRawData rt jsonData) (digest (records (processRawData rt jsonData)))"

text \<open>\<open>parseExcelFile\<close>: the promise resolves (\<open>Inr\<close>) or rejects (\<open>Inl\<close>) on the reply.\<close>

fun parseExcelFile :: "WorkerResponse \<Rightarrow> string + jsnum ProcessedData \<times> string" where
  "parseExcelFile (SUCCESS data hash) =
     (if hash \<noteq> [] then Inr (data, hash) else Inl ''Unknown error parsing file'')"
| "parseExcelFile (ERROR err) =
     Inl (if err \<noteq> [] then err else ''Unknown error parsing file'')"

text \<open>The first application's upload handler: the error it shows, or the data it keeps.\<close>

definition handleFileUpload :: "'n ProcessedData \<Rightarrow> string + 'n ProcessedData" where
  "handleFileUpload processed =
     (if totalRecords processed = 0 then Inl ''No valid records found in the uploaded file.''
      else Inr processed)"

text \<open>
  A runtime for the sample inputs: its generic date parse rejects every text and its
  conversions to text are constant.
\<close>

definition sampleRuntime :: js_runtime where
  "sampleRuntime =
     \<lparr> numToString = (\<lambda>n. ''0''), dateToString = (\<lambda>d. ''date''),
       dateParse = (\<lambda>s. InvalidDate), monthYearLabel = (\<lambda>d. ''month'') \<rparr>"

text \<open>A stand-in for the SHA-256 digest in the sample inputs.\<close>

definition sampleDigest :: "jsnum RentalRecord list \<Rightarrow> string" where
  "sampleDigest rs = ''digest''"

text \<open>
  Sample tables. \<open>sampleRows\<close> has three valid rows and one with a duration of 0;
  \<open>lateStartRows\<close> begins with a row of duration 0; \<open>noStationRow\<close> has no station column;
  the duration cell of \<open>nanDurationRow\<close> is the number \<open>NaN\<close>.
\<close>

definition sampleRow :: "string \<Rightarrow> string \<Rightarrow> real \<Rightarrow> string \<Rightarrow> row" where
  "sampleRow st dt dys chg =
     [(''Station'', JStr st), (''Check-out Date'', JStr dt), (''Days'', JNum (Num dys)),
      (''Rental Charge'', JStr chg), (''Car Group'', JStr ''B'')]"

definition sampleRows :: "row list" where
  "sampleRows =
     [sampleRow ''Athens'' ''05/01/2024'' 2 ''100'',
      sampleRow ''Athens'' ''10/02/2024'' 1 ''50,00'',
      sampleRow ''Rhodes'' ''31/12/2023'' 0 ''75'',
      sampleRow '' Athens '' ''20/01/2024'' 2 ''100'']"

definition lateStartRows :: "row list" where
  "lateStartRows =
     [sampleRow ''Athens'' ''05/01/2024'' 0 ''100'',
      sampleRow ''Athens'' ''10/02/2024'' 1 ''50,00'']"

definition noStationRow :: row where
  "noStationRow =
     [(''Office'', JStr ''Athens''), (''Check-out Date'', JStr ''05/01/2024''), (''Days'', JNum (Num 2)),
      (''Rental Charge'', JStr ''100'')]"

definition nanDurationRow :: row where
  "nanDurationRow =
     [(''Station'', JStr ''Athens''), (''Check-out Date'', JStr ''05/01/2024''), (''Days'', JNum NaN),
      (''Rental Charge'', JStr ''100''), (''Car Group'', JStr ''B'')]"

section \<open>The dataset registry: \<open>verifyYearMode\<close> and \<open>loadYear\<close>\<close>

subsection \<open>\<open>verifyYearMode\<close>\<close>

text \<open>The calendar years of the records whose date is valid, in record order.\<close>

fun yearOfDate :: "jsdate \<Rightarrow> int list" where
  "yearOfDate InvalidDate = []"
| "yearOfDate (DateAt z) = [fst (civilFromDays z)]"

definition datedYears :: "'n ProcessedData \<Rightarrow> int list" where
  "datedYears data = concat (map (\<lambda>r. yearOfDate (date r)) (records data))"

text \<open>
  \<open>Object.entries(counts)\<close> lists the keys that are array indices in ascending order and
  then the other keys (negative years) in the order of their first insertion.
\<close>

definition isArrayIndex :: "int \<Rightarrow> bool" where
  "isArrayIndex y = (0 \<le> y \<and> y \<le> 4294967294)"

definition firstOccurrences :: "int list \<Rightarrow> int list" where
  "firstOccurrences ys = rev (remdups (rev ys))"

definition entryKeys :: "int list \<Rightarrow> int list" where
  "entryKeys ys =
     sort (remdups (filter isArrayIndex ys)) @
     firstOccurrences (filter (\<lambda>y. \<not> isArrayIndex y) ys)"

definition entries :: "int list \<Rightarrow> (int \<times> nat) list" where
  "entries ys = map (\<lambda>y. (y, count_list ys y)) (entryKeys ys)"

text \<open>
  \<open>reduce((a, b) => b[1] > a[1] ? b : a)\<close> without an initial value throws a TypeError on
  an empty array; \<open>None\<close> is that exception.
\<close>

definition modeEntry :: "(int \<times> nat) list \<Rightarrow> (int \<times> nat) option" where
  "modeEntry es =
     (case es of
        [] \<Rightarrow> None
      | e # rest \<Rightarrow> Some (foldl (\<lambda>a b. if snd b > snd a then b else a) e rest))"

definition verifyYearMode :: "'n ProcessedData \<Rightarrow> int \<Rightarrow> bool option" where
  "verifyYearMode data requestedYear =
     (if length (datedYears data) < 10 then Some True
      else (case modeEntry (entries (datedYears data)) of
              None \<Rightarrow> None
            | Some e \<Rightarrow> Some (fst e = requestedYear)))"

subsection \<open>\<open>loadYear\<close>\<close>

text \<open>
  The state \<open>loadYear\<close> works on: the registry and the loading set of the component, the
  in-flight map of the ref, and the alerts shown. Two fields record the traffic with the
  remote store: \<open>fetchLog\<close> lists the year of every call of \<open>api.fetchYearData\<close>, and
  \<open>pendingFetches\<close> holds the calls that have not settled yet, each with the promise that
  awaits it. A promise is named by its position in \<open>fetchLog\<close>. The registry holds
  Datasets over finite numbers, as the comparison hook reads them.
\<close>

datatype alert = YearMismatch int | DownloadFailed int

record AppState =
  datasetRegistry :: "int \<rightharpoonup> real ProcessedData"
  loadingYears :: "int set"
  inflightRequests :: "int \<rightharpoonup> nat"
  pendingFetches :: "(nat \<times> int) list"
  fetchLog :: "int list"
  alerts :: "alert list"

definition initialState :: AppState where
  "initialState =
     \<lparr> datasetRegistry = Map.empty, loadingYears = {}, inflightRequests = Map.empty,
       pendingFetches = [], fetchLog = [], alerts = [] \<rparr>"

text \<open>
  What a call of \<open>loadYear\<close> hands back: a promise that is already resolved (the bare
  \<open>return\<close> of the cache check), or the promise of a load.
\<close>

datatype loadResult = Resolved | Awaits nat

text \<open>
  Step 3 up to the first \<open>await\<close>: the year joins the loading set, the fetch is issued,
  and the new promise is registered as in flight.
\<close>

definition startLoad :: "int \<Rightarrow> AppState \<Rightarrow> AppState" where
  "startLoad yr st =
     st\<lparr> loadingYears := insert yr (loadingYears st),
         inflightRequests := (inflightRequests st)(yr \<mapsto> length (fetchLog st)),
         pendingFetches := pendingFetches st @ [(length (fetchLog st), yr)],
         fetchLog := fetchLog st @ [yr] \<rparr>"

text \<open>
  \<open>loadYear\<close> is created anew in every render of the component, and its cache check
  \<open>if (datasetRegistry[year]) return\<close> reads the constant \<open>datasetRegistry\<close> of that render:
  the registry as it was when the component rendered, here the argument \<open>captured\<close>. The
  in-flight map is a ref, so the second check reads the map of the state at the time of
  the call.
\<close>

definition loadYear ::
  "(int \<rightharpoonup> real ProcessedData) \<Rightarrow> int \<Rightarrow> AppState \<Rightarrow> loadResult \<times> AppState" where
  "loadYear captured yr st =
     (if captured yr \<noteq> None then (Resolved, st)
      else (case inflightRequests st yr of
              Some p \<Rightarrow> (Awaits p, st)
            | None \<Rightarrow> (Awaits (length (fetchLog st)), startLoad yr st)))"

text \<open>
  The rest of the promise body, run when the fetch settles: the \<open>try\<close> block on success
  (\<open>Inr\<close>), the \<open>catch\<close> block on a failed fetch (\<open>Inl\<close>) or on an exception of the
  verifier, and the \<open>finally\<close> block.
\<close>

definition storeLoaded :: "int \<Rightarrow> real ProcessedData \<Rightarrow> bool \<Rightarrow> AppState \<Rightarrow> AppState" where
  "storeLoaded yr data ok st =
     st\<lparr> alerts := alerts st @ (if ok then [] else [YearMismatch yr]),
         datasetRegistry := (datasetRegistry st)(yr \<mapsto> data) \<rparr>"

definition catchFailure :: "int \<Rightarrow> AppState \<Rightarrow> AppState" where
  "catchFailure yr st = st\<lparr> alerts := alerts st @ [DownloadFailed yr] \<rparr>"

definition finallyClear :: "int \<Rightarrow> AppState \<Rightarrow> AppState" where
  "finallyClear yr st =
     st\<lparr> loadingYears := loadingYears st - {yr},
         inflightRequests := (inflightRequests st)(yr := None) \<rparr>"

definition settle :: "int \<Rightarrow> string + real ProcessedData \<Rightarrow> AppState \<Rightarrow> AppState" where
  "settle yr outcome st =
     finallyClear yr
       (case outcome of
          Inl err \<Rightarrow> catchFailure yr st
        | Inr data \<Rightarrow>
            (case verifyYearMode data yr of
               None \<Rightarrow> catchFailure yr st
             | Some ok \<Rightarrow> storeLoaded yr data ok st))"

text \<open>
  The event loop: the settling of a pending fetch with its outcome, or a call of the
  \<open>loadYear\<close> of the latest render when that render has seen every registry update made so
  far, so that the registry it captured is the one of the state. Calls and settlements
  interleave in any order. A call through a closure that was created before a registry
  update is not an event of this loop; it is \<open>loadYear\<close> applied to the registry of the
  earlier state.
\<close>

datatype event = LoadYear int | FetchSettles nat "string + real ProcessedData"

fun step :: "AppState \<Rightarrow> event \<Rightarrow> AppState" where
  "step st (LoadYear yr) = snd (loadYear (datasetRegistry st) yr st)"
| "step st (FetchSettles p outcome) =
     (case map_of (pendingFetches st) p of
        None \<Rightarrow> st
      | Some yr \<Rightarrow>
          settle yr outcome (st\<lparr> pendingFetches := filter (\<lambda>f. fst f \<noteq> p) (pendingFetches st) \<rparr>))"

definition run :: "AppState \<Rightarrow> event list \<Rightarrow> AppState" where
  "run st es = foldl step st es"

text \<open>The number of fetches for a year that are outstanding, and that were ever issued.\<close>

definition outstanding :: "AppState \<Rightarrow> int \<Rightarrow> nat" where
  "outstanding st yr = length (filter (\<lambda>f. snd f = yr) (pendingFetches st))"

definition fetchesOf :: "AppState \<Rightarrow> int \<Rightarrow> nat" where
  "fetchesOf st yr = count_list (fetchLog st) yr"

text \<open>What holds between the in-flight map and the pending fetches in every state reached.\<close>

definition consistent :: "AppState \<Rightarrow> bool" where
  "consistent st =
     (distinct (map fst (pendingFetches st)) \<and> distinct (map snd (pendingFetches st)) \<and>
      list_all (\<lambda>f. inflightRequests st (snd f) = Some (fst f) \<and> fst f < length (fetchLog st) \<and>
                   datasetRegistry st (snd f) = None)
        (pendingFetches st) \<and>
      dom (inflightRequests st) = set (map snd (pendingFetches st)))"

text \<open>
  A sample session: 2023 is loaded from the remote store, then a load of 2024 is started
  and still pending. In \<open>loadedSession\<close> the fetch of 2024 has succeeded as well.
\<close>

definition sampleSession :: "event list" where
  "sampleSession = [LoadYear 2023, FetchSettles 0 (Inr sampleData), LoadYear 2024]"

definition loadedSession :: "event list" where
  "loadedSession = sampleSession @ [FetchSettles 1 (Inr sampleData)]"

section \<open>Unfolding sets for evaluation on concrete inputs\<close>

lemmas calendar_defs = dayOfMarchYear_def daysFromMarchYear_def daysFromCivil_def civilOfMonth_def
  civilOfYearDay_def civilOfQuad_def civilOfCentury_def civilOfEra_def civilFromDays_def
  timeClip_def makeDay_def fullYear_def newDate_def

lemmas string_defs = toLowerCase_def toLowerChar_def isUpper_def isSpace_def
  trim_def isDigit_def digitVal_def digitsVal_def endsWith_def

lemmas number_defs = signOf_def fractionDigits_def decimalValue_def parseUnsigned_def
  parseFloat_def isCurrencyOrText_def stripCurrency_def removeDots_def resolveSeparators_def
  isNegative_def sliceInner_def cleanNumber_def parseNumberText_def

lemmas pattern_defs = isSep_def matchYear_def dmyMatch_def

section \<open>Variance rules\<close>

text \<open>
  C1. For each metric of a primary and a comparison MetricSet, \<open>calcVariance\<close> answers
  \<open>null\<close> when the comparison side has no data; 0 when the comparison value is 0, the
  primary side has data and its value is 0 too; \<open>null\<close> when the comparison value is 0
  otherwise; \<open>null\<close> when the comparison has data and is nonzero but the primary side has
  none; and the signed fraction (primary - comparison) / comparison in every remaining
  case. A number is only ever returned as 0 or from a division by a nonzero comparison
  value, and \<open>calcVariance(12, 10, true, true)\<close> is 0.2.
\<close>

theorem calcVariance_rules:
  "(\<not> cHasData \<longrightarrow> calcVariance p c pHasData cHasData = None) \<and>
   (cHasData \<and> c = 0 \<and> pHasData \<and> p = 0 \<longrightarrow> calcVariance p c pHasData cHasData = Some 0) \<and>
   (cHasData \<and> c = 0 \<and> \<not> (pHasData \<and> p = 0) \<longrightarrow> calcVariance p c pHasData cHasData = None) \<and>
   (cHasData \<and> c \<noteq> 0 \<and> \<not> pHasData \<longrightarrow> calcVariance p c pHasData cHasData = None) \<and>
   (cHasData \<and> c \<noteq> 0 \<and> pHasData \<longrightarrow> calcVariance p c pHasData cHasData = Some ((p - c) / c)) \<and>
   (\<forall>v. calcVariance p c pHasData cHasData = Some v \<longrightarrow> v = 0 \<or> c \<noteq> 0) \<and>
   var_revenue (varianceOf pm cm) = calcVariance (revenue pm) (revenue cm) (hasData pm) (hasData cm) \<and>
   var_days (varianceOf pm cm) = calcVariance (MetricSet.days pm) (MetricSet.days cm) (hasData pm) (hasData cm) \<and>
   var_rate (varianceOf pm cm) = calcVariance (rate pm) (rate cm) (hasData pm) (hasData cm) \<and>
   calcVariance 12 10 True True = Some (2 / 10)"
  by (simp add: calcVariance_def varianceOf_def)

theorem calcVariance_rules_witness:
  "calcVariance 12 10 True True = Some (1 / 5) \<and>
   calcVariance 0 0 True True = Some 0 \<and>
   calcVariance 5 0 True True = None \<and>
   calcVariance 5 7 True False = None \<and>
   calcVariance 0 10 False True = None"
  using calcVariance_rules [where p = 12 and c = 10 and pHasData = True and cHasData = True]
        calcVariance_rules [where p = 0 and c = 0 and pHasData = True and cHasData = True]
        calcVariance_rules [where p = 5 and c = 0 and pHasData = True and cHasData = True]
        calcVariance_rules [where p = 5 and c = 7 and pHasData = True and cHasData = False]
        calcVariance_rules [where p = 0 and c = 10 and pHasData = False and cHasData = True]
  by simp

section \<open>Calendar facts\<close>

lemma civilOfYearDay_month:
  "0 \<le> doy \<Longrightarrow> doy \<le> 365 \<Longrightarrow>
   1 \<le> fst (snd (civilOfYearDay y doy)) \<and> fst (snd (civilOfYearDay y doy)) \<le> 12"
  unfolding civilOfYearDay_def civilOfMonth_def by (auto split: if_splits)

lemma civilOfQuad_month:
  "0 \<le> d \<Longrightarrow> d \<le> 1460 \<Longrightarrow>
   1 \<le> fst (snd (civilOfQuad y d)) \<and> fst (snd (civilOfQuad y d)) \<le> 12"
  unfolding civilOfQuad_def
  by (rule civilOfYearDay_month) (auto simp: min_def)

lemma civilFromDays_month:
  "1 \<le> fst (snd (civilFromDays z)) \<and> fst (snd (civilFromDays z)) \<le> 12"
  unfolding civilFromDays_def civilOfEra_def civilOfCentury_def
  by (rule civilOfQuad_month) auto

lemma getMonth_range:
  assumes "d \<noteq> InvalidDate"
  shows "\<exists>m. getMonth d = Some (int m) \<and> m < 12"
proof (cases d)
  case InvalidDate
  with assms show ?thesis by simp
next
  case (DateAt z)
  let ?m = "fst (snd (civilFromDays z)) - 1"
  from civilFromDays_month [of z] have "0 \<le> ?m" "?m < 12" by auto
  then have "getMonth d = Some (int (nat ?m)) \<and> nat ?m < 12"
    using DateAt by auto
  then show ?thesis by blast
qed

section \<open>Per-year reduction\<close>

lemma forEachRecord_fold:
  assumes "length ms = 12" and "\<forall>r \<in> set rs. date r \<noteq> InvalidDate"
  shows "\<exists>ms'. forEachRecord ts tg rng ms rs = Some ms' \<and> length ms' = 12 \<and>
           (\<forall>i<12. ms' ! i =
              foldl addRecord (ms ! i)
                (filter (\<lambda>r. passes ts tg rng r \<and> getMonth (date r) = Some (int i)) rs))"
  using assms
proof (induction rs arbitrary: ms)
  case Nil
  then show ?case by simp
next
  case (Cons r rs)
  show ?case
  proof (cases "passes ts tg rng r")
    case False
    then have "forEachRecord ts tg rng ms (r # rs) = forEachRecord ts tg rng ms rs"
      by (auto simp: passes_def)
    moreover have "\<And>i. filter (\<lambda>r. passes ts tg rng r \<and> getMonth (date r) = Some (int i)) (r # rs)
        = filter (\<lambda>r. passes ts tg rng r \<and> getMonth (date r) = Some (int i)) rs"
      using False by simp
    ultimately show ?thesis using Cons.IH [of ms] Cons.prems by simp
  next
    case True
    from Cons.prems have "date r \<noteq> InvalidDate" by simp
    then obtain m where m: "getMonth (date r) = Some (int m)" "m < 12"
      using getMonth_range by blast
    let ?ms1 = "ms[m := addRecord (ms ! m) r]"
    have agg: "aggregate ms r = Some ?ms1"
      using m Cons.prems by (simp add: aggregate_def)
    have step: "forEachRecord ts tg rng ms (r # rs) = forEachRecord ts tg rng ?ms1 rs"
      using True agg by (simp add: passes_def)
    have len: "length ?ms1 = 12" using Cons.prems by simp
    from Cons.IH [OF len] Cons.prems
    obtain ms' where ms': "forEachRecord ts tg rng ?ms1 rs = Some ms'" "length ms' = 12"
      "\<forall>i<12. ms' ! i = foldl addRecord (?ms1 ! i)
          (filter (\<lambda>r. passes ts tg rng r \<and> getMonth (date r) = Some (int i)) rs)"
      by auto
    have "\<forall>i<12. ms' ! i = foldl addRecord (ms ! i)
          (filter (\<lambda>r. passes ts tg rng r \<and> getMonth (date r) = Some (int i)) (r # rs))"
    proof (intro allI impI)
      fix i :: nat assume i: "i < 12"
      show "ms' ! i = foldl addRecord (ms ! i)
          (filter (\<lambda>r. passes ts tg rng r \<and> getMonth (date r) = Some (int i)) (r # rs))"
      proof (cases "i = m")
        case True
        then show ?thesis using ms'(3) i m \<open>passes ts tg rng r\<close> Cons.prems by simp
      next
        case False
        then show ?thesis using ms'(3) i m \<open>passes ts tg rng r\<close> Cons.prems by simp
      qed
    qed
    then show ?thesis using step ms' by simp
  qed
qed

lemma foldl_addRecord:
  "foldl addRecord m cs =
     m\<lparr> revenue := revenue m + sum_list (map charge cs),
        MetricSet.days := MetricSet.days m + sum_list (map RentalRecord.days cs),
        count := count m + length cs,
        hasData := (hasData m \<or> cs \<noteq> []) \<rparr>"
  by (induction cs arbitrary: m) (simp_all add: addRecord_def algebra_simps)

lemma calcRate_fold_empty:
  "calcRate (foldl addRecord emptyMetric cs) =
     \<lparr> revenue = sum_list (map charge cs),
       MetricSet.days = sum_list (map RentalRecord.days cs),
       count = length cs,
       rate = spec_rate (sum_list (map charge cs)) (sum_list (map RentalRecord.days cs)),
       hasData = (cs \<noteq> []) \<rparr>"
  by (simp add: foldl_addRecord calcRate_def emptyMetric_def spec_rate_def)

lemma passes_spec:
  assumes "selectedStation = ''All'' \<or> trim (toLowerCase selectedStation) \<noteq> []"
  shows "passes (targetStationKey selectedStation) (targetGroupKeys selectedGroups) rng r \<longleftrightarrow>
         spec_passesStation selectedStation r \<and> spec_passesGroup selectedGroups r \<and>
         spec_passesDayRange rng r"
  using assms
  by (cases rng)
     (auto simp: passes_def failsStation_def failsGroup_def failsDateRange_def
        targetStationKey_def targetGroupKeys_def spec_passesStation_def spec_passesGroup_def)

text \<open>
  C2. For a Dataset whose records carry valid dates and a selection of a station (a
  non-blank name, or \<open>All\<close>), a set of groups (or \<open>All\<close>) and a day-of-month range,
  \<open>processYear\<close> returns
  twelve MetricSets, one per month index 0 to 11. A record counts for month \<open>i\<close> exactly
  when its stationKey equals the normalised selected station, its groupKey is among the
  normalised selected groups, its day lies in the range and its date falls in month \<open>i\<close>;
  revenue, days and count are the sums over these records, hasData says that there is one,
  and rate is revenue / days when days > 0 and 0 otherwise.
\<close>

theorem processYear_months:
  assumes "selectedStation = ''All'' \<or> trim (toLowerCase selectedStation) \<noteq> []"
      and "\<forall>r \<in> set (records data). date r \<noteq> InvalidDate"
  shows "\<exists>ms. processYear (Some data) selectedStation selectedGroups rng = Some ms \<and>
           length ms = 12 \<and>
           (\<forall>i<12. ms ! i = spec_month selectedStation selectedGroups rng (records data) i)"
proof -
  let ?ts = "targetStationKey selectedStation" and ?tg = "targetGroupKeys selectedGroups"
  have "length (replicate 12 emptyMetric) = 12" by simp
  from forEachRecord_fold [OF this assms(2), of ?ts ?tg rng]
  obtain ms' where ms': "forEachRecord ?ts ?tg rng (replicate 12 emptyMetric) (records data) = Some ms'"
      "length ms' = 12"
      "\<forall>i<12. ms' ! i = foldl addRecord (replicate 12 emptyMetric ! i)
          (filter (\<lambda>r. passes ?ts ?tg rng r \<and> getMonth (date r) = Some (int i)) (records data))"
    by blast
  have same: "\<And>i. (\<lambda>r. passes ?ts ?tg rng r \<and> getMonth (date r) = Some (int i))
                 = spec_contributes selectedStation selectedGroups rng i"
    using passes_spec [OF assms(1)] by (auto simp: spec_contributes_def fun_eq_iff)
  have "\<forall>i<12. map calcRate ms' ! i = spec_month selectedStation selectedGroups rng (records data) i"
  proof (intro allI impI)
    fix i :: nat assume i: "i < 12"
    then have "map calcRate ms' ! i = calcRate (ms' ! i)" using ms'(2) by simp
    also have "\<dots> = calcRate (foldl addRecord emptyMetric
        (filter (spec_contributes selectedStation selectedGroups rng i) (records data)))"
      using ms'(3) i same by simp
    also have "\<dots> = spec_month selectedStation selectedGroups rng (records data) i"
      by (simp add: calcRate_fold_empty spec_month_def)
    finally show "map calcRate ms' ! i = spec_month selectedStation selectedGroups rng (records data) i" .
  qed
  then show ?thesis using ms'(1,2) by (simp add: processYear_def)
qed


lemma sample_civil:
  "civilFromDays 19727 = (2024, 1, 5)" "civilFromDays 19763 = (2024, 2, 10)"
  "civilFromDays 19742 = (2024, 1, 20)"
  by (simp_all add: calendar_defs)

lemma sample_spec_month:
  "spec_month ''Athens'' [''All''] RangeAll (records sampleData) 0 =
     \<lparr> revenue = 200, MetricSet.days = 4, count = 2, rate = 50, hasData = True \<rparr>"
  "spec_month ''Athens'' [''All''] RangeAll (records sampleData) (Suc 0) =
     \<lparr> revenue = 50, MetricSet.days = 1, count = 1, rate = 50, hasData = True \<rparr>"
  by (simp_all add: spec_month_def spec_contributes_def spec_passesStation_def
      spec_passesGroup_def sampleData_def sampleRecord_def sample_civil string_defs spec_rate_def)

theorem processYear_months_witness:
  "(''Athens'' = ''All'' \<or> trim (toLowerCase ''Athens'') \<noteq> []) \<and>
   list_all (\<lambda>r. date r \<noteq> InvalidDate) (records sampleData) \<and>
   (\<exists>ms. processYear (Some sampleData) ''Athens'' [''All''] RangeAll = Some ms \<and>
      length ms = 12 \<and>
      ms ! 0 = \<lparr> revenue = 200, MetricSet.days = 4, count = 2, rate = 50, hasData = True \<rparr> \<and>
      ms ! 1 = \<lparr> revenue = 50, MetricSet.days = 1, count = 1, rate = 50, hasData = True \<rparr>)"
proof -
  have h1: "''Athens'' = ''All'' \<or> trim (toLowerCase ''Athens'') \<noteq> []"
    by (simp add: string_defs)
  have h2: "\<forall>r \<in> set (records sampleData). date r \<noteq> InvalidDate"
    by (simp add: sampleData_def sampleRecord_def)
  from processYear_months [OF h1 h2, of "[''All'']" RangeAll]
  obtain ms where ms: "processYear (Some sampleData) ''Athens'' [''All''] RangeAll = Some ms"
      "length ms = 12"
      "\<forall>i<12. ms ! i = spec_month ''Athens'' [''All''] RangeAll (records sampleData) i"
    by blast
  from ms(3) have "ms ! 0 = spec_month ''Athens'' [''All''] RangeAll (records sampleData) 0"
    and "ms ! 1 = spec_month ''Athens'' [''All''] RangeAll (records sampleData) 1"
    by simp_all
  with ms(1,2) h1 h2 show ?thesis by (simp add: sample_spec_month list_all_iff)
qed

section \<open>Scalar parsers\<close>

subsection \<open>Digits and the explicit date pattern\<close>

lemma isDigit_val: "isDigit c \<Longrightarrow> digitVal c \<le> 9"
  unfolding isDigit_def digitVal_def less_eq_char_def
  apply simp
  apply arith
  done

lemma digitsVal_snoc: "digitsVal (ds @ [c]) = 10 * digitsVal ds + digitVal c"
  by (simp add: digitsVal_def)

lemma digitsVal_bound: "list_all isDigit ds \<Longrightarrow> digitsVal ds < 10 ^ length ds"
proof (induction ds rule: rev_induct)
  case Nil
  then show ?case by (simp add: digitsVal_def)
next
  case (snoc c ds)
  then have "digitsVal ds < 10 ^ length ds" and "digitVal c \<le> 9"
    by (simp_all add: isDigit_val)
  then show ?case by (simp add: digitsVal_snoc)
qed

lemma matchDigitsSep_digits:
  assumes "matchDigitsSep s = Some (ds, rest)"
  shows "list_all isDigit ds \<and> length ds \<le> 2"
  using assms by (rule matchDigitsSep.elims) (auto split: if_splits)

lemma matchYear_digits:
  assumes "matchYear s = Some y"
  shows "list_all isDigit y \<and> length y = 4"
  using assms by (auto simp: matchYear_def split: if_splits)

lemma short_digits:
  assumes "list_all isDigit ds" "length ds \<le> 2"
  shows "digitsVal ds \<le> 99"
proof -
  have "digitsVal ds < 10 ^ length ds" using assms digitsVal_bound by blast
  also have "(10::nat) ^ length ds \<le> 10 ^ 2"
    using assms(2) by (intro power_increasing) simp_all
  finally show ?thesis by simp
qed

lemma dmyMatch_parts:
  assumes "dmyMatch s = Some (d, m, y)"
  shows "\<exists>r1 r2. matchDigitsSep s = Some (d, r1) \<and> matchDigitsSep r1 = Some (m, r2) \<and>
           matchYear r2 = Some y"
  using assms unfolding dmyMatch_def
  by (simp split: option.splits prod.splits)

lemma dmyMatch_bounds:
  assumes "dmyMatch s = Some (d, m, y)"
  shows "digitsVal d \<le> 99 \<and> digitsVal m \<le> 99 \<and> digitsVal y \<le> 9999"
proof -
  from dmyMatch_parts [OF assms] obtain r1 r2 where a: "matchDigitsSep s = Some (d, r1)"
    and b: "matchDigitsSep r1 = Some (m, r2)" and c: "matchYear r2 = Some y"
    by blast
  have "digitsVal d \<le> 99" using matchDigitsSep_digits [OF a] short_digits by blast
  moreover have "digitsVal m \<le> 99" using matchDigitsSep_digits [OF b] short_digits by blast
  moreover have "digitsVal y < 10 ^ 4"
    using matchYear_digits [OF c] digitsVal_bound [of y] by auto
  ultimately show ?thesis by simp
qed

subsection \<open>The Date constructor stays in range on matched text\<close>

lemma daysFromMarchYear_bound:
  assumes "98 \<le> y" "y \<le> 10007" "0 \<le> doy" "doy \<le> 400"
  shows "\<bar>daysFromMarchYear y doy\<bar> \<le> 4000000"
proof -
  define q r a b where "q = y div 400" and "r = y mod 400" and "a = r div 4" and "b = r div 100"
  have q0: "0 \<le> q" unfolding q_def using assms(1) by (simp add: pos_imp_zdiv_nonneg_iff)
  have "y div 400 \<le> 10007 div 400" using assms(2) by (rule zdiv_mono1) simp
  then have q1: "q \<le> 25" unfolding q_def by simp
  have r0: "0 \<le> r" and r1: "r < 400" unfolding r_def by simp_all
  have a0: "0 \<le> a" unfolding a_def using r0 by (simp add: pos_imp_zdiv_nonneg_iff)
  have "r div 4 \<le> 400 div 4" using r1 by (intro zdiv_mono1) simp_all
  then have a1: "a \<le> 100" unfolding a_def by simp
  have b0: "0 \<le> b" unfolding b_def using r0 by (simp add: pos_imp_zdiv_nonneg_iff)
  have "r div 100 \<le> 400 div 100" using r1 by (intro zdiv_mono1) simp_all
  then have b1: "b \<le> 4" unfolding b_def by simp
  have eq: "daysFromMarchYear y doy = q * 146097 + (r * 365 + a - b + doy) - 719468"
    unfolding daysFromMarchYear_def q_def r_def a_def b_def ..
  have "- 4000000 \<le> q * 146097 + (r * 365 + a - b + doy) - 719468"
    using q0 r0 a0 b1 assms(3) by linarith
  moreover have "q * 146097 + (r * 365 + a - b + doy) - 719468 \<le> 4000000"
    using q1 r1 a1 b0 assms(4) by linarith
  ultimately show ?thesis unfolding eq by (simp add: abs_le_iff)
qed

lemma dayOfMarchYear_bound:
  assumes "1 \<le> m" "m \<le> 12"
  shows "0 \<le> dayOfMarchYear m 1 \<and> dayOfMarchYear m 1 \<le> 400"
proof -
  let ?k = "(if m > 2 then m - 3 else m + 9)"
  have k: "0 \<le> ?k" "?k \<le> 11" using assms by auto
  have "0 \<le> (153 * ?k + 2) div 5" using k(1) by (simp add: pos_imp_zdiv_nonneg_iff)
  moreover have "(153 * ?k + 2) div 5 \<le> (153 * 11 + 2) div 5"
    using k(2) by (intro zdiv_mono1) simp_all
  ultimately show ?thesis unfolding dayOfMarchYear_def by simp
qed

lemma makeDay_bound:
  assumes "100 \<le> yr" "yr \<le> 9999" "- 1 \<le> m" "m \<le> 98" "0 \<le> d" "d \<le> 99"
  shows "\<bar>makeDay yr m d\<bar> \<le> 100000000"
proof -
  have "- 12 \<le> m" using assms(3) by simp
  then have "- 12 div 12 \<le> m div 12" by (rule zdiv_mono1) simp
  then have md0: "- 1 \<le> m div 12" by simp
  have "m div 12 \<le> 98 div 12" using assms(4) by (rule zdiv_mono1) simp
  then have md1: "m div 12 \<le> 8" by simp
  have mm: "1 \<le> m mod 12 + 1" "m mod 12 + 1 \<le> 12"
    using pos_mod_sign [of 12 m] pos_mod_bound [of 12 m] by simp_all
  let ?y = "(if m mod 12 + 1 \<le> 2 then yr + m div 12 - 1 else yr + m div 12)"
  have y: "98 \<le> ?y" "?y \<le> 10007" using md0 md1 assms(1,2) by simp_all
  have dm: "0 \<le> dayOfMarchYear (m mod 12 + 1) 1" "dayOfMarchYear (m mod 12 + 1) 1 \<le> 400"
    using dayOfMarchYear_bound [OF mm] by simp_all
  have "\<bar>daysFromCivil (yr + m div 12) (m mod 12 + 1) 1\<bar> \<le> 4000000"
    unfolding daysFromCivil_def by (rule daysFromMarchYear_bound [OF y dm])
  then show ?thesis using assms(5,6) unfolding makeDay_def by linarith
qed

lemma dateOfMatch_valid:
  assumes "dmyMatch s = Some (d, m, y)"
  shows "dateOfMatch (d, m, y) =
           DateAt (makeDay (fullYear (int (digitsVal y))) (int (digitsVal m) - 1) (int (digitsVal d)))"
proof -
  from dmyMatch_bounds [OF assms]
  have b: "digitsVal d \<le> 99" "digitsVal m \<le> 99" "digitsVal y \<le> 9999" by simp_all
  have yr: "100 \<le> fullYear (int (digitsVal y))" "fullYear (int (digitsVal y)) \<le> 9999"
    using b(3) by (simp_all add: fullYear_def)
  have "\<bar>makeDay (fullYear (int (digitsVal y))) (int (digitsVal m) - 1) (int (digitsVal d))\<bar>
          \<le> 100000000"
    using b(1,2) by (intro makeDay_bound yr) simp_all
  then show ?thesis by (simp add: newDate_def timeClip_def)
qed

lemma validOrNull_None: "validOrNull d = None \<longleftrightarrow> d = InvalidDate"
  by (cases d) simp_all

lemma validOrNull_Some: "validOrNull d = Some d' \<Longrightarrow> d' = d \<and> d \<noteq> InvalidDate"
  by (cases d) auto

lemma trim_Nil: "trim [] = []"
  by (simp add: trim_def)

lemma dmyMatch_Nil: "dmyMatch [] = None"
  by (simp add: dmyMatch_def)

lemma parseDateText_valid: "parseDateText rt str = Some d \<Longrightarrow> d \<noteq> InvalidDate"
  unfolding parseDateText_def by (auto split: option.splits dest: validOrNull_Some)

lemma parseDate_valid: "parseDate rt v = Some d \<Longrightarrow> d \<noteq> InvalidDate"
  by (cases v) (auto split: if_splits dest: validOrNull_Some parseDateText_valid)

lemma rollover_match: "dmyMatch ''31/02/2024'' = Some (''31'', ''02'', ''2024'')"
  by (simp add: pattern_defs string_defs)

lemma rollover_day: "makeDay (fullYear (int (digitsVal ''2024''))) (int (digitsVal ''02'') - 1)
    (int (digitsVal ''31'')) = 19784"
  by (simp add: string_defs calendar_defs)

lemma rollover_civil: "civilFromDays 19784 = (2024, 3, 2)"
  by (simp add: calendar_defs)

text \<open>
  C10. Text whose trimmed form starts with the day-month-year pattern always parses to a
  Date: the Date built from the three numbers by the constructor's carry rules, whatever
  the day and month are. \<open>"31/02/2024"\<close> gives 2 March 2024. For text, \<open>null\<close> comes back
  exactly for the empty text and for text that neither matches the pattern nor passes the
  generic parse; for a native Date exactly when it is invalid.
\<close>

theorem parseDate_rollover:
  "(dmyMatch (trim s) = Some (d, m, y) \<longrightarrow>
      parseDate rt (JStr s) =
        Some (DateAt (makeDay (fullYear (int (digitsVal y))) (int (digitsVal m) - 1)
                        (int (digitsVal d))))) \<and>
   parseDate rt (JStr ''31/02/2024'') = Some (DateAt 19784) \<and>
   getFullYear (DateAt 19784) = Some 2024 \<and> getMonth (DateAt 19784) = Some 2 \<and>
   getDate (DateAt 19784) = Some 2 \<and>
   (parseDate rt (JStr s) = None \<longleftrightarrow>
      s = [] \<or> (dmyMatch (trim s) = None \<and> dateParse rt (trim s) = InvalidDate)) \<and>
   (parseDate rt (JDate dt) = None \<longleftrightarrow> dt = InvalidDate)"
proof (intro conjI impI)
  assume m: "dmyMatch (trim s) = Some (d, m, y)"
  then have "s \<noteq> []" using trim_Nil dmyMatch_Nil by force
  then show "parseDate rt (JStr s) =
      Some (DateAt (makeDay (fullYear (int (digitsVal y))) (int (digitsVal m) - 1)
                      (int (digitsVal d))))"
    using m dateOfMatch_valid [OF m]
    by (simp add: parseDateText_def del: dateOfMatch.simps)
next
  have "trim ''31/02/2024'' = ''31/02/2024''" by (simp add: string_defs)
  then show "parseDate rt (JStr ''31/02/2024'') = Some (DateAt 19784)"
    using dateOfMatch_valid [OF rollover_match] rollover_match rollover_day
    by (simp add: parseDateText_def del: dateOfMatch.simps)
next
  show "getFullYear (DateAt 19784) = Some 2024" by (simp add: rollover_civil)
  show "getMonth (DateAt 19784) = Some 2" by (simp add: rollover_civil)
  show "getDate (DateAt 19784) = Some 2" by (simp add: rollover_civil)
next
  show "parseDate rt (JStr s) = None \<longleftrightarrow>
      s = [] \<or> (dmyMatch (trim s) = None \<and> dateParse rt (trim s) = InvalidDate)"
  proof (cases "dmyMatch (trim s)")
    case None
    then show ?thesis by (simp add: parseDateText_def validOrNull_None)
  next
    case (Some g)
    obtain d' m' y' where g: "g = (d', m', y')" by (cases g) auto
    have "s \<noteq> []" using Some trim_Nil dmyMatch_Nil by force
    then show ?thesis using Some g dateOfMatch_valid [of "trim s" d' m' y']
      by (simp add: parseDateText_def del: dateOfMatch.simps)
  qed
next
  show "parseDate rt (JDate dt) = None \<longleftrightarrow> dt = InvalidDate"
    by (simp add: validOrNull_None)
qed

lemma overflow_match: "dmyMatch (trim ''32/13/2024'') = Some (''32'', ''13'', ''2024'')"
  by (simp add: pattern_defs string_defs)

lemma overflow_day: "makeDay (fullYear (int (digitsVal ''2024''))) (int (digitsVal ''13'') - 1)
    (int (digitsVal ''32'')) = 20120"
  by (simp add: string_defs calendar_defs)

lemma overflow_civil: "civilFromDays 20120 = (2025, 2, 1)"
  by (simp add: calendar_defs)

theorem parseDate_rollover_witness:
  "dmyMatch (trim ''32/13/2024'') = Some (''32'', ''13'', ''2024'') \<and>
   parseDate sampleRuntime (JStr ''32/13/2024'') = Some (DateAt 20120) \<and>
   civilFromDays 20120 = (2025, 2, 1) \<and>
   parseDate sampleRuntime (JStr ''not a date'') = None"
proof -
  have "dmyMatch (trim ''not a date'') = None" by (simp add: pattern_defs string_defs)
  moreover have "dateParse sampleRuntime (trim ''not a date'') = InvalidDate"
    by (simp add: sampleRuntime_def)
  ultimately show ?thesis
    using parseDate_rollover [where s = "''32/13/2024''" and d = "''32''" and m = "''13''"
        and y = "''2024''" and rt = sampleRuntime]
      parseDate_rollover [where s = "''not a date''" and rt = sampleRuntime]
      overflow_match overflow_day overflow_civil
    by simp
qed

subsection \<open>Numbers\<close>

text \<open>
  C7. \<open>parseNumber\<close> is a total function: text that \<open>parseFloat\<close> cannot read after the
  clean-up gives 0, a native number comes back unchanged (\<open>NaN\<close> and the infinities
  too), and
  \<open>"1.234,56"\<close>, \<open>"54.11"\<close>, \<open>"1.200"\<close>, \<open>"(42)"\<close>, \<open>""\<close> and \<open>"abc"\<close> give
  1234.56, 54.11, 1200, -42, 0 and 0.
\<close>

theorem parseNumber_examples:
  "parseNumber rt (JStr ''1.234,56'') = Num 1234.56 \<and>
   parseNumber rt (JStr ''54.11'') = Num 54.11 \<and>
   parseNumber rt (JStr ''1.200'') = Num 1200 \<and>
   parseNumber rt (JStr ''(42)'') = Num (- 42) \<and>
   parseNumber rt (JStr '''') = Num 0 \<and>
   parseNumber rt (JStr ''abc'') = Num 0 \<and>
   parseNumber rt (JNum n) = n \<and>
   (parseFloat (cleanNumber (trim s)) = None \<longrightarrow> parseNumber rt (JStr s) = Num 0)"
proof (intro conjI impI)
  show "parseNumber rt (JStr ''1.234,56'') = Num 1234.56" by (simp add: number_defs string_defs)
  show "parseNumber rt (JStr ''54.11'') = Num 54.11" by (simp add: number_defs string_defs)
  show "parseNumber rt (JStr ''1.200'') = Num 1200" by (simp add: number_defs string_defs)
  show "parseNumber rt (JStr ''(42)'') = Num (- 42)" by (simp add: number_defs string_defs)
  show "parseNumber rt (JStr '''') = Num 0" by simp
  show "parseNumber rt (JStr ''abc'') = Num 0" by (simp add: number_defs string_defs)
  show "parseNumber rt (JNum n) = n" by simp
next
  assume "parseFloat (cleanNumber (trim s)) = None"
  then show "parseNumber rt (JStr s) = Num 0" by (simp add: parseNumberText_def)
qed

theorem parseNumber_examples_witness:
  "parseFloat (cleanNumber (trim ''n/a'')) = None \<and> parseNumber sampleRuntime (JStr ''n/a'') = Num 0"
proof -
  have "parseFloat (cleanNumber (trim ''n/a'')) = None" by (simp add: number_defs string_defs)
  then show ?thesis using parseNumber_examples [where s = "''n/a''" and rt = sampleRuntime] by simp
qed

section \<open>Ingestion\<close>

subsection \<open>One row\<close>

lemma processRow_rejected:
  "\<not> rowKept rt cols r \<Longrightarrow> processRow rt cols index r acc = acc"
  unfolding processRow_def rowKept_def
  by (auto split: option.splits jsdate.splits dest: parseDate_valid)

lemma processRow_accepted:
  assumes "rowKept rt cols r"
  shows "\<exists>st grp z dys chg. st \<noteq> [] \<and> \<not> leZero dys \<and>
           processRow rt cols index r acc = acceptRow rt index st grp z dys chg acc"
proof -
  from assms obtain sk dk yk ck where c: "stationCol cols = Some sk" "dateCol cols = Some dk"
      "daysCol cols = Some yk" "chargeCol cols = Some ck"
    and st: "trim (toStr rt (orElse (cell r sk) (JStr []))) \<noteq> []"
    and dt: "parseDate rt (cell r dk) \<noteq> None"
    and dy: "\<not> leZero (parseNumber rt (cell r yk))"
    unfolding rowKept_def by (auto split: option.splits)
  from dt obtain d where d: "parseDate rt (cell r dk) = Some d" by blast
  with parseDate_valid obtain z where z: "d = DateAt z" by (cases d) auto
  have "processRow rt cols index r acc =
      acceptRow rt index (trim (toStr rt (orElse (cell r sk) (JStr []))))
        (groupOf rt (groupCol cols) r) z (parseNumber rt (cell r yk))
        (parseNumber rt (cell r ck)) acc"
    using c st d z dy by (simp add: processRow_def)
  with st dy show ?thesis by blast
qed

lemma acceptRow_records:
  "\<exists>rec. recordsAcc (acceptRow rt index st grp z dys chg acc) = recordsAcc acc @ [rec] \<and>
         rec_id rec = index \<and> station rec = st \<and> date rec = DateAt z \<and>
         RentalRecord.days rec = dys \<and> RentalRecord.year rec = fst (civilFromDays z)"
  by (simp add: acceptRow_def)

lemma acceptRow_dataYear:
  "dataYear (acceptRow rt (Suc i) st grp z dys chg acc) = dataYear acc"
  by (simp add: acceptRow_def)

lemma processRow_dataYear: "dataYear (processRow rt cols (Suc i) r acc) = dataYear acc"
proof (cases "rowKept rt cols r")
  case True
  from processRow_accepted [OF this, of "Suc i" acc] show ?thesis
    by (auto simp: acceptRow_dataYear)
next
  case False
  then show ?thesis by (simp add: processRow_rejected)
qed

lemma forEachRow_dataYear: "dataYear (forEachRow rt cols (Suc i) rs acc) = dataYear acc"
  by (induction rs arbitrary: i acc) (simp_all add: processRow_dataYear)

lemma processRow_valid:
  assumes "\<forall>r \<in> set (recordsAcc acc). keptRecord r"
  shows "\<forall>r \<in> set (recordsAcc (processRow rt cols index row acc)). keptRecord r"
proof (cases "rowKept rt cols row")
  case True
  from processRow_accepted [OF this, of index acc]
  obtain st grp z dys chg where a: "st \<noteq> []" "\<not> leZero dys"
    "processRow rt cols index row acc = acceptRow rt index st grp z dys chg acc" by blast
  from acceptRow_records [of rt index st grp z dys chg acc]
  obtain rec where "recordsAcc (acceptRow rt index st grp z dys chg acc) = recordsAcc acc @ [rec]"
    "station rec = st" "date rec = DateAt z" "RentalRecord.days rec = dys" by blast
  then show ?thesis using a assms by (auto simp: keptRecord_def)
next
  case False
  then show ?thesis using assms by (simp add: processRow_rejected)
qed

lemma forEachRow_valid:
  assumes "\<forall>r \<in> set (recordsAcc acc). keptRecord r"
  shows "\<forall>r \<in> set (recordsAcc (forEachRow rt cols index rs acc)). keptRecord r"
  using assms
proof (induction rs arbitrary: index acc)
  case Nil
  then show ?case by simp
next
  case (Cons row rs)
  show ?case using Cons.IH [OF processRow_valid [OF Cons.prems]] by simp
qed

lemma processRow_ids:
  "map rec_id (recordsAcc (processRow rt cols index row acc)) =
     map rec_id (recordsAcc acc) @ (if rowKept rt cols row then [index] else [])"
proof (cases "rowKept rt cols row")
  case True
  from processRow_accepted [OF this, of index acc]
  obtain st grp z dys chg where a:
    "processRow rt cols index row acc = acceptRow rt index st grp z dys chg acc" by blast
  from acceptRow_records [of rt index st grp z dys chg acc]
  obtain rec where "recordsAcc (acceptRow rt index st grp z dys chg acc) = recordsAcc acc @ [rec]"
    "rec_id rec = index" by blast
  then show ?thesis using a True by simp
next
  case False
  then show ?thesis by (simp add: processRow_rejected)
qed

lemma shifted_indices:
  "filter (\<lambda>j. P ((row # rs) ! j)) [0..<Suc (length rs)] =
     (if P row then [0] else []) @ map Suc (filter (\<lambda>j. P (rs ! j)) [0..<length rs])"
proof -
  have "[0..<Suc (length rs)] = 0 # map Suc [0..<length rs]"
    by (simp add: upt_conv_Cons map_Suc_upt del: upt_Suc)
  then show ?thesis by (simp add: filter_map comp_def del: upt_Suc)
qed

lemma forEachRow_ids:
  "map rec_id (recordsAcc (forEachRow rt cols index rs acc)) =
     map rec_id (recordsAcc acc) @
     map (\<lambda>j. index + j) (filter (\<lambda>j. rowKept rt cols (rs ! j)) [0..<length rs])"
proof (induction rs arbitrary: index acc)
  case Nil
  then show ?case by simp
next
  case (Cons row rs)
  have "map rec_id (recordsAcc (forEachRow rt cols index (row # rs) acc)) =
        map rec_id (recordsAcc (processRow rt cols index row acc)) @
        map (\<lambda>j. Suc index + j) (filter (\<lambda>j. rowKept rt cols (rs ! j)) [0..<length rs])"
    using Cons.IH by simp
  also have "\<dots> = map rec_id (recordsAcc acc) @
        map (\<lambda>j. index + j)
          ((if rowKept rt cols row then [0] else []) @
           map Suc (filter (\<lambda>j. rowKept rt cols (rs ! j)) [0..<length rs]))"
    by (simp add: processRow_ids comp_def)
  also have "\<dots> = map rec_id (recordsAcc acc) @
        map (\<lambda>j. index + j)
          (filter (\<lambda>j. rowKept rt cols ((row # rs) ! j)) [0..<length (row # rs)])"
    using shifted_indices [of "rowKept rt cols" row rs] by simp
  finally show ?case .
qed

subsection \<open>Sample tables\<close>

lemma sample_columns:
  "resolveColumns (sampleRow st dt dys chg) =
     \<lparr> stationCol = Some ''Station'', dateCol = Some ''Check-out Date'', daysCol = Some ''Days'',
       chargeCol = Some ''Rental Charge'', groupCol = Some ''Car Group'' \<rparr>"
  by (simp add: resolveColumns_def sampleRow_def stationCandidates_def dateCandidates_def
      daysCandidates_def chargeCandidates_def groupCandidates_def keyMatches_def string_defs)

lemma sample_cells:
  "cell (sampleRow st dt dys chg) ''Station'' = JStr st"
  "cell (sampleRow st dt dys chg) ''Check-out Date'' = JStr dt"
  "cell (sampleRow st dt dys chg) ''Days'' = JNum (Num dys)"
  "cell (sampleRow st dt dys chg) ''Rental Charge'' = JStr chg"
  "cell (sampleRow st dt dys chg) ''Car Group'' = JStr ''B''"
  by (simp_all add: cell_def sampleRow_def)

lemma sample_accepted:
  "rowKept rt (resolveColumns (sampleRow st' dt' dys' chg')) (sampleRow st dt dys chg) =
     (trim st \<noteq> [] \<and> parseDate rt (JStr dt) \<noteq> None \<and> 0 < dys)"
  by (simp add: rowKept_def sample_columns sample_cells orElse_def not_le
      del: parseDate.simps)

lemma sample_dates:
  "parseDate rt (JStr ''05/01/2024'') = Some (DateAt 19727)"
  "parseDate rt (JStr ''10/02/2024'') = Some (DateAt 19763)"
  "parseDate rt (JStr ''31/12/2023'') = Some (DateAt 19722)"
  "parseDate rt (JStr ''20/01/2024'') = Some (DateAt 19742)"
  by (simp_all add: parseDateText_def pattern_defs string_defs calendar_defs)

lemma sample_trims:
  "trim ''Athens'' = ''Athens''" "trim '' Athens '' = ''Athens''" "trim ''Rhodes'' = ''Rhodes''"
  by (simp_all add: string_defs)

lemma nanDuration_columns:
  "resolveColumns nanDurationRow =
     \<lparr> stationCol = Some ''Station'', dateCol = Some ''Check-out Date'', daysCol = Some ''Days'',
       chargeCol = Some ''Rental Charge'', groupCol = Some ''Car Group'' \<rparr>"
  by (simp add: resolveColumns_def nanDurationRow_def stationCandidates_def dateCandidates_def
      daysCandidates_def chargeCandidates_def groupCandidates_def keyMatches_def string_defs)

lemma nanDuration_cells:
  "cell nanDurationRow ''Station'' = JStr ''Athens''"
  "cell nanDurationRow ''Check-out Date'' = JStr ''05/01/2024''"
  "cell nanDurationRow ''Days'' = JNum NaN"
  "cell nanDurationRow ''Rental Charge'' = JStr ''100''"
  "cell nanDurationRow ''Car Group'' = JStr ''B''"
  by (simp_all add: cell_def nanDurationRow_def)

lemma nanDuration_row:
  "processRow sampleRuntime (resolveColumns nanDurationRow) 0 nanDurationRow ingestStart =
   acceptRow sampleRuntime 0 ''Athens'' ''B'' 19727 NaN (Num 100) ingestStart"
proof -
  have c1: "parseNumber sampleRuntime (cell nanDurationRow ''Days'') = NaN"
    by (simp add: nanDuration_cells)
  have c2: "parseNumber sampleRuntime (cell nanDurationRow ''Rental Charge'') = Num 100"
    by (simp add: nanDuration_cells number_defs string_defs)
  have c3: "parseDate sampleRuntime (cell nanDurationRow ''Check-out Date'') = Some (DateAt 19727)"
    by (simp add: nanDuration_cells sample_dates del: parseDate.simps)
  have c4: "trim (toStr sampleRuntime (orElse (cell nanDurationRow ''Station'') (JStr []))) = ''Athens''"
    by (simp add: nanDuration_cells orElse_def sample_trims)
  have c5: "groupOf sampleRuntime (Some ''Car Group'') nanDurationRow = ''B''"
    by (simp add: groupOf_def nanDuration_cells orElse_def string_defs)
  show ?thesis
    by (simp add: processRow_def nanDuration_columns c1 c2 c3 c4 c5)
qed

subsection \<open>The records of a Dataset\<close>

text \<open>
  What the callback guarantees for every input table: each record has a non-empty
  station, a valid date and a duration for which \<open>days <= 0\<close> is false; the records are, in
  order, the rows the callback keeps; and totalRecords is the length of the record
  sequence. A record whose duration is not \<open>NaN\<close> therefore has \<open>days > 0\<close>.
\<close>

lemma processRawData_kept:
  "(\<forall>r \<in> set (records (processRawData rt data)). keptRecord r) \<and>
   map rec_id (records (processRawData rt data)) =
     (case data of
        [] \<Rightarrow> []
      | firstRow # rest \<Rightarrow>
          filter (\<lambda>i. rowKept rt (resolveColumns firstRow) (data ! i)) [0..<length data]) \<and>
   totalRecords (processRawData rt data) = length (records (processRawData rt data))"
proof (cases data)
  case Nil
  then show ?thesis by (simp add: processRawData_def emptyData_def)
next
  case (Cons firstRow rest)
  have "\<forall>r \<in> set (recordsAcc ingestStart). keptRecord r" by (simp add: ingestStart_def)
  from forEachRow_valid [OF this, of rt "resolveColumns firstRow" 0 data]
    forEachRow_ids [of rt "resolveColumns firstRow" 0 data ingestStart]
  show ?thesis using Cons by (simp add: processRawData_def finish_def ingestStart_def)
qed

lemma keptRecord_valid:
  "keptRecord r \<Longrightarrow> RentalRecord.days r \<noteq> NaN \<Longrightarrow> spec_validRecord r"
  by (cases "RentalRecord.days r") (simp_all add: keptRecord_def spec_validRecord_def)

text \<open>
  C6 says that every record of the Dataset has days > 0. On a table of one row whose
  duration cell is the number \<open>NaN\<close>, with a station and a date that parse, the code
  returns a Dataset of one record whose days is \<open>NaN\<close>: \<open>parseNumber\<close> hands the number
  back as it is, and the guard \<open>days <= 0\<close> is false for it. The record does not meet the
  invariant, and it is counted in totalRecords.
\<close>

theorem nan_duration_recorded:
  "map rec_id (records (processRawData sampleRuntime [nanDurationRow])) = [0] \<and>
   map RentalRecord.days (records (processRawData sampleRuntime [nanDurationRow])) = [NaN] \<and>
   map gtZero (map RentalRecord.days (records (processRawData sampleRuntime [nanDurationRow]))) =
     [False] \<and>
   map spec_validRecord (records (processRawData sampleRuntime [nanDurationRow])) = [False] \<and>
   totalRecords (processRawData sampleRuntime [nanDurationRow]) = 1"
proof -
  have "records (processRawData sampleRuntime [nanDurationRow]) =
      recordsAcc (acceptRow sampleRuntime 0 ''Athens'' ''B'' 19727 NaN (Num 100) ingestStart)"
    using nanDuration_row by (simp add: processRawData_def finish_def)
  moreover have "totalRecords (processRawData sampleRuntime [nanDurationRow]) =
      length (records (processRawData sampleRuntime [nanDurationRow]))"
    by (simp add: processRawData_def finish_def)
  ultimately show ?thesis
    by (simp add: acceptRow_def ingestStart_def spec_validRecord_def)
qed

subsection \<open>The Dataset's year\<close>

lemma processRawData_year:
  "ProcessedData.year (processRawData rt (firstRow # rest)) =
     dataYear (processRow rt (resolveColumns firstRow) 0 firstRow ingestStart)"
  by (simp add: processRawData_def finish_def forEachRow_dataYear)

lemma processRawData_year_skipped:
  assumes "\<not> rowKept rt (resolveColumns firstRow) firstRow"
  shows "ProcessedData.year (processRawData rt (firstRow # rest)) = 0"
  using assms by (simp add: processRawData_year processRow_rejected ingestStart_def)

lemma lateStart_second_row:
  "processRow sampleRuntime (resolveColumns (sampleRow ''Athens'' ''05/01/2024'' 0 ''100'')) (Suc 0)
     (sampleRow ''Athens'' ''10/02/2024'' 1 ''50,00'') ingestStart =
   acceptRow sampleRuntime (Suc 0) ''Athens'' ''B'' 19763 (Num 1) (Num 50) ingestStart"
proof -
  let ?row = "sampleRow ''Athens'' ''10/02/2024'' 1 ''50,00''"
  have c1: "parseNumber sampleRuntime (cell ?row ''Days'') = Num 1"
    by (simp add: sample_cells)
  have c2: "parseNumber sampleRuntime (cell ?row ''Rental Charge'') = Num 50"
    by (simp add: sample_cells number_defs string_defs)
  have c3: "parseDate sampleRuntime (cell ?row ''Check-out Date'') = Some (DateAt 19763)"
    by (simp add: sample_cells sample_dates del: parseDate.simps)
  have c4: "trim (toStr sampleRuntime (orElse (cell ?row ''Station'') (JStr []))) = ''Athens''"
    by (simp add: sample_cells orElse_def sample_trims)
  have c5: "groupOf sampleRuntime (Some ''Car Group'') ?row = ''B''"
    by (simp add: groupOf_def sample_cells orElse_def string_defs)
  show ?thesis
    by (simp add: processRow_def sample_columns c1 c2 c3 c4 c5)
qed

text \<open>
  C5 says that the Dataset's year is the calendar year of the first accepted record, also
  when earlier rows were rejected. On a table whose first row is skipped for its duration
  of 0 and whose second row is accepted, the code returns a Dataset with one record, of
  the year 2024, and with the year 0: the year is assigned only when the accepted row has
  index 0.
\<close>

theorem year_zero_when_first_row_skipped:
  "map rec_id (records (processRawData sampleRuntime lateStartRows)) = [1] \<and>
   map RentalRecord.year (records (processRawData sampleRuntime lateStartRows)) = [2024] \<and>
   ProcessedData.year (processRawData sampleRuntime lateStartRows) = 0"
proof -
  have skip: "\<not> rowKept sampleRuntime
      (resolveColumns (sampleRow ''Athens'' ''05/01/2024'' 0 ''100''))
      (sampleRow ''Athens'' ''05/01/2024'' 0 ''100'')"
    by (simp add: sample_accepted del: parseDate.simps)
  have civil: "civilFromDays 19763 = (2024, 2, 10)" by (simp add: calendar_defs)
  have "records (processRawData sampleRuntime lateStartRows) =
      recordsAcc (acceptRow sampleRuntime (Suc 0) ''Athens'' ''B'' 19763 (Num 1) (Num 50) ingestStart)"
    using skip lateStart_second_row
    by (simp add: processRawData_def lateStartRows_def finish_def processRow_rejected)
  then have "map rec_id (records (processRawData sampleRuntime lateStartRows)) = [1]"
    and "map RentalRecord.year (records (processRawData sampleRuntime lateStartRows)) = [2024]"
    by (simp_all add: acceptRow_def ingestStart_def civil)
  moreover have "ProcessedData.year (processRawData sampleRuntime lateStartRows) = 0"
    unfolding lateStartRows_def by (rule processRawData_year_skipped [OF skip])
  ultimately show ?thesis by simp
qed

subsection \<open>Unresolved columns\<close>

lemma processRow_unresolved:
  assumes "stationCol cols = None \<or> dateCol cols = None \<or> daysCol cols = None \<or>
           chargeCol cols = None"
  shows "processRow rt cols index r acc = acc"
  using assms unfolding processRow_def by (auto split: option.splits)

lemma forEachRow_unresolved:
  assumes "stationCol cols = None \<or> dateCol cols = None \<or> daysCol cols = None \<or>
           chargeCol cols = None"
  shows "forEachRow rt cols index rs acc = acc"
  by (induction rs arbitrary: index) (simp_all add: processRow_unresolved [OF assms])

lemma finish_start: "finish ingestStart = emptyData"
  by (simp add: finish_def ingestStart_def emptyData_def)

lemma unresolved_empty:
  assumes "stationCol (resolveColumns firstRow) = None \<or> dateCol (resolveColumns firstRow) = None \<or>
           daysCol (resolveColumns firstRow) = None \<or> chargeCol (resolveColumns firstRow) = None"
  shows "processRawData rt (firstRow # rest) = emptyData"
  by (simp add: processRawData_def forEachRow_unresolved [OF assms] finish_start
      del: forEachRow.simps)

lemma noStation_unresolved: "stationCol (resolveColumns noStationRow) = None"
  by (simp add: resolveColumns_def noStationRow_def stationCandidates_def keyMatches_def
      string_defs)

text \<open>
  C4, as the code has it. When the header row does not resolve the station, date,
  duration or charge column, the callback returns at once on every row: no error is
  raised, the worker replies \<open>SUCCESS\<close> with the empty Dataset (no records, no stations,
  groups or months, totalRecords 0, year 0) and the digest of the empty record sequence,
  and \<open>parseExcelFile\<close> resolves with that pair. The first application's upload handler
  reports such a Dataset as "No valid records found in the uploaded file.".
\<close>

theorem missing_column_empty_dataset:
  assumes "stationCol (resolveColumns firstRow) = None \<or> dateCol (resolveColumns firstRow) = None \<or>
           daysCol (resolveColumns firstRow) = None \<or> chargeCol (resolveColumns firstRow) = None"
  shows "processRawData rt (firstRow # rest) = emptyData \<and>
         onmessage digest rt (firstRow # rest) = SUCCESS emptyData (digest []) \<and>
         (digest [] \<noteq> [] \<longrightarrow>
            parseExcelFile (onmessage digest rt (firstRow # rest)) = Inr (emptyData, digest [])) \<and>
         handleFileUpload (processRawData rt (firstRow # rest)) =
           Inl ''No valid records found in the uploaded file.''"
  using unresolved_empty [OF assms, of rt rest]
  by (simp add: onmessage_def handleFileUpload_def emptyData_def)

theorem missing_column_empty_dataset_witness:
  "stationCol (resolveColumns noStationRow) = None \<and>
   processRawData sampleRuntime [noStationRow] = emptyData \<and>
   sampleDigest [] \<noteq> [] \<and>
   parseExcelFile (onmessage sampleDigest sampleRuntime [noStationRow]) = Inr (emptyData, ''digest'') \<and>
   handleFileUpload (processRawData sampleRuntime [noStationRow]) =
     Inl ''No valid records found in the uploaded file.''"
  using missing_column_empty_dataset [of noStationRow sampleRuntime "[]" sampleDigest]
    noStation_unresolved
  by (simp add: sampleDigest_def handleFileUpload_def emptyData_def)

theorem missing_column_no_error:
  "findColumnKey noStationRow stationCandidates = None \<and>
   onmessage sampleDigest sampleRuntime [noStationRow] = SUCCESS emptyData ''digest'' \<and>
   parseExcelFile (onmessage sampleDigest sampleRuntime [noStationRow]) = Inr (emptyData, ''digest'')"
proof -
  have "findColumnKey noStationRow stationCandidates = None"
    by (simp add: noStationRow_def stationCandidates_def keyMatches_def string_defs)
  moreover from noStation_unresolved
  have "processRawData sampleRuntime [noStationRow] = emptyData"
    by (simp add: unresolved_empty)
  ultimately show ?thesis by (simp add: onmessage_def sampleDigest_def emptyData_def)
qed

section \<open>Dataset registry\<close>

subsection \<open>The year-mode verifier always answers\<close>

lemma entryKeys_set: "set (entryKeys ys) = set ys"
  by (auto simp: entryKeys_def firstOccurrences_def)

lemma entryKeys_nonempty: "ys \<noteq> [] \<Longrightarrow> entryKeys ys \<noteq> []"
  using entryKeys_set [of ys] by (metis set_empty)

lemma verifyYearMode_returns: "\<exists>ok. verifyYearMode data yr = Some ok"
proof (cases "length (datedYears data) < 10")
  case True
  then have "verifyYearMode data yr = Some True" by (simp add: verifyYearMode_def)
  then show ?thesis by blast
next
  case False
  then have "datedYears data \<noteq> []" by auto
  then have "entries (datedYears data) \<noteq> []"
    using entryKeys_nonempty by (simp add: entries_def)
  then obtain e where "modeEntry (entries (datedYears data)) = Some e"
    by (cases "entries (datedYears data)") (simp_all add: modeEntry_def)
  with False show ?thesis by (simp add: verifyYearMode_def)
qed

subsection \<open>Settling a fetch\<close>

lemma settle_success:
  "datasetRegistry (settle yr (Inr data) st) = (datasetRegistry st)(yr \<mapsto> data)"
  using verifyYearMode_returns [of data yr]
  by (auto simp: settle_def finallyClear_def storeLoaded_def)

lemma settle_failure: "datasetRegistry (settle yr (Inl err) st) = datasetRegistry st"
  by (simp add: settle_def finallyClear_def catchFailure_def)

lemma settle_clears:
  "inflightRequests (settle yr outcome st) = (inflightRequests st)(yr := None)"
  "loadingYears (settle yr outcome st) = loadingYears st - {yr}"
  "pendingFetches (settle yr outcome st) = pendingFetches st"
  "fetchLog (settle yr outcome st) = fetchLog st"
  by (auto simp: settle_def finallyClear_def storeLoaded_def catchFailure_def
      split: sum.splits option.splits)

subsection \<open>The in-flight map matches the pending fetches\<close>

lemma consistent_initial: "consistent initialState"
  by (simp add: consistent_def initialState_def)

lemma consistent_startLoad:
  assumes "consistent st" "inflightRequests st yr = None" "datasetRegistry st yr = None"
  shows "consistent (startLoad yr st)"
proof -
  from assms have fresh: "yr \<notin> set (map snd (pendingFetches st))"
    unfolding consistent_def by (metis domIff)
  from assms(1) have lt: "\<forall>f \<in> set (pendingFetches st). fst f < length (fetchLog st)"
    and fl: "\<forall>f \<in> set (pendingFetches st). inflightRequests st (snd f) = Some (fst f)"
    and rg: "\<forall>f \<in> set (pendingFetches st). datasetRegistry st (snd f) = None"
    unfolding consistent_def by (auto simp: list_all_iff)
  from lt have newp: "length (fetchLog st) \<notin> set (map fst (pendingFetches st))" by auto
  have "\<forall>f \<in> set (pendingFetches st). snd f \<noteq> yr" using fresh by auto
  then show ?thesis
    using assms(1,3) fresh newp lt fl rg
    unfolding consistent_def startLoad_def
    by (auto simp: list_all_iff less_Suc_eq)
qed

lemma consistent_loadYear:
  "consistent st \<Longrightarrow> consistent (snd (loadYear (datasetRegistry st) yr st))"
  by (auto simp: loadYear_def consistent_startLoad split: option.splits)

lemma pending_promise:
  assumes "consistent st" "(p, yr) \<in> set (pendingFetches st)"
  shows "map_of (pendingFetches st) p = Some yr" "inflightRequests st yr = Some p"
    "datasetRegistry st yr = None"
  using assms unfolding consistent_def by (auto simp: list_all_iff)

lemma consistent_settled:
  assumes "consistent st" "map_of (pendingFetches st) p = Some yr"
  shows "consistent (settle yr outcome
           (st\<lparr> pendingFetches := filter (\<lambda>f. fst f \<noteq> p) (pendingFetches st) \<rparr>))"
proof -
  let ?xs = "pendingFetches st" and ?ys = "filter (\<lambda>f. fst f \<noteq> p) (pendingFetches st)"
  from assms(2) have mem: "(p, yr) \<in> set ?xs" by (rule map_of_SomeD)
  from assms(1) have df: "distinct (map fst ?xs)" and ds: "distinct (map snd ?xs)"
    and fl: "\<forall>f \<in> set ?xs. inflightRequests st (snd f) = Some (fst f) \<and>
               fst f < length (fetchLog st) \<and> datasetRegistry st (snd f) = None"
    and dm: "dom (inflightRequests st) = set (map snd ?xs)"
    unfolding consistent_def by (auto simp: list_all_iff)
  have other: "snd f \<noteq> yr" if "f \<in> set ?ys" for f
  proof
    assume "snd f = yr"
    moreover from that have "f \<in> set ?xs" "fst f \<noteq> p" by auto
    ultimately have "f = (p, yr)"
      using ds mem by (metis distinct_map inj_onD snd_conv)
    with \<open>fst f \<noteq> p\<close> show False by simp
  qed
  have years: "set (map snd ?ys) = set (map snd ?xs) - {yr}"
  proof (intro set_eqI iffI)
    fix y assume "y \<in> set (map snd ?ys)"
    then show "y \<in> set (map snd ?xs) - {yr}" using other by auto
  next
    fix y assume "y \<in> set (map snd ?xs) - {yr}"
    then obtain f where f: "f \<in> set ?xs" "snd f = y" "y \<noteq> yr" by auto
    have "fst f \<noteq> p"
    proof
      assume "fst f = p"
      then have "f = (p, yr)" using df mem f(1) by (metis distinct_map inj_onD fst_conv)
      with f show False by simp
    qed
    with f show "y \<in> set (map snd ?ys)" by force
  qed
  have "distinct (map fst ?ys)" "distinct (map snd ?ys)"
    using df ds by (simp_all add: distinct_map_filter)
  moreover have "list_all (\<lambda>f. ((inflightRequests st)(yr := None)) (snd f) = Some (fst f) \<and>
                    fst f < length (fetchLog st) \<and>
                    datasetRegistry (settle yr outcome (st\<lparr> pendingFetches := ?ys \<rparr>)) (snd f) = None)
                  ?ys"
    using fl other by (cases outcome) (auto simp: list_all_iff settle_success settle_failure)
  moreover have "dom ((inflightRequests st)(yr := None)) = set (map snd ?ys)"
    using dm years by auto
  ultimately show ?thesis
    unfolding consistent_def by (simp add: settle_clears)
qed

lemma consistent_step: "consistent st \<Longrightarrow> consistent (step st e)"
  by (cases e) (auto simp: consistent_loadYear consistent_settled split: option.splits)

lemma consistent_run: "consistent st \<Longrightarrow> consistent (run st es)"
  unfolding run_def by (induction es arbitrary: st) (simp_all add: consistent_step)

lemma at_most_one:
  "distinct (map g xs) \<Longrightarrow> length (filter (\<lambda>x. g x = v) xs) \<le> 1"
proof (induction xs)
  case Nil
  then show ?case by simp
next
  case (Cons x xs)
  show ?case
  proof (cases "g x = v")
    case True
    from Cons.prems have "g x \<notin> g ` set xs" by simp
    with True have "\<forall>y \<in> set xs. g y \<noteq> v" by (metis imageI)
    then have "filter (\<lambda>x. g x = v) xs = []"
      by (simp add: filter_empty_conv)
    with True show ?thesis by simp
  next
    case False
    with Cons show ?thesis by simp
  qed
qed

lemma outstanding_settled:
  assumes "consistent st" "(p, yr) \<in> set (pendingFetches st)"
  shows "outstanding (step st (FetchSettles p outcome)) yr = 0"
proof -
  from assms have df: "distinct (map snd (pendingFetches st))"
    unfolding consistent_def by simp
  have "snd f \<noteq> yr" if "f \<in> set (pendingFetches st)" "fst f \<noteq> p" for f
  proof
    assume "snd f = yr"
    then have "f = (p, yr)" using df assms(2) that(1) by (metis distinct_map inj_onD snd_conv)
    with that(2) show False by simp
  qed
  then have "filter (\<lambda>f. snd f = yr) (filter (\<lambda>f. fst f \<noteq> p) (pendingFetches st)) = []"
    by (auto simp: filter_empty_conv)
  then show ?thesis
    using pending_promise(1) [OF assms] by (simp add: outstanding_def settle_clears)
qed

lemma outstanding_le_one: "consistent st \<Longrightarrow> outstanding st yr \<le> 1"
  unfolding outstanding_def using at_most_one [of snd "pendingFetches st" yr]
  by (simp add: consistent_def)

lemma outstanding_in_flight:
  assumes "consistent st" "inflightRequests st yr = Some p"
  shows "outstanding st yr = 1"
proof -
  from assms have "yr \<in> set (map snd (pendingFetches st))"
    unfolding consistent_def by (metis domI)
  then have "filter (\<lambda>f. snd f = yr) (pendingFetches st) \<noteq> []"
    by (auto simp: filter_empty_conv)
  then have "1 \<le> outstanding st yr"
    unfolding outstanding_def by (cases "filter (\<lambda>f. snd f = yr) (pendingFetches st)") simp_all
  with outstanding_le_one [OF assms(1), of yr] show ?thesis by simp
qed

text \<open>
  C8. When the pending fetch of a year fails, the registry is left as it was (so no entry
  is written for the year, and the entries of all other years stay), and whatever the
  outcome the in-flight marker and the loading mark of the year are cleared and no fetch
  for it is outstanding. A call of \<open>loadYear\<close> for the year after the failure issues a
  fresh fetch with a new promise: the call of the next render, which captured the registry
  of the state after the failure, and the call through any closure whose captured registry
  has no entry for the year.
\<close>

theorem failed_load_leaves_registry:
  assumes "st = run initialState es" and "(p, yr) \<in> set (pendingFetches st)"
  shows "datasetRegistry (step st (FetchSettles p (Inl err))) = datasetRegistry st \<and>
         datasetRegistry (step st (FetchSettles p (Inl err))) yr = None \<and>
         inflightRequests (step st (FetchSettles p outcome)) yr = None \<and>
         yr \<notin> loadingYears (step st (FetchSettles p outcome)) \<and>
         outstanding (step st (FetchSettles p outcome)) yr = 0 \<and>
         fst (loadYear (datasetRegistry (step st (FetchSettles p (Inl err)))) yr
                (step st (FetchSettles p (Inl err)))) = Awaits (length (fetchLog st)) \<and>
         fetchLog (snd (loadYear (datasetRegistry (step st (FetchSettles p (Inl err)))) yr
                          (step st (FetchSettles p (Inl err))))) = fetchLog st @ [yr] \<and>
         outstanding (snd (loadYear (datasetRegistry (step st (FetchSettles p (Inl err)))) yr
                             (step st (FetchSettles p (Inl err))))) yr = 1 \<and>
         (captured yr = None \<longrightarrow>
            fst (loadYear captured yr (step st (FetchSettles p (Inl err)))) =
              Awaits (length (fetchLog st)) \<and>
            fetchLog (snd (loadYear captured yr (step st (FetchSettles p (Inl err))))) =
              fetchLog st @ [yr] \<and>
            outstanding (snd (loadYear captured yr (step st (FetchSettles p (Inl err))))) yr = 1)"
proof -
  have c: "consistent st" unfolding assms(1) by (rule consistent_run [OF consistent_initial])
  note pp = pending_promise [OF c assms(2)]
  let ?st' = "step st (FetchSettles p (Inl err))"
  have reg: "datasetRegistry ?st' = datasetRegistry st"
    using pp(1) by (simp add: settle_failure)
  have infl: "inflightRequests (step st (FetchSettles p outcome)) yr = None" for outcome
    using pp(1) by (simp add: settle_clears)
  have load: "yr \<notin> loadingYears (step st (FetchSettles p outcome))"
    using pp(1) by (simp add: settle_clears)
  have log: "fetchLog ?st' = fetchLog st"
    using pp(1) by (simp add: settle_clears)
  have c': "consistent ?st'" by (rule consistent_step [OF c])
  have none: "datasetRegistry ?st' yr = None" using reg pp(3) by simp
  have retry: "loadYear cap yr ?st' = (Awaits (length (fetchLog st)), startLoad yr ?st')"
    if "cap yr = None" for cap
    using that infl [of "Inl err"] log by (simp add: loadYear_def)
  have "inflightRequests (startLoad yr ?st') yr = Some (length (fetchLog st))"
    using log by (simp add: startLoad_def)
  from outstanding_in_flight [OF consistent_startLoad [OF c' infl none] this]
  have one: "outstanding (startLoad yr ?st') yr = 1" .
  have app: "fetchLog (startLoad yr ?st') = fetchLog st @ [yr]"
    using log by (simp add: startLoad_def)
  have live: "loadYear (datasetRegistry ?st') yr ?st' =
      (Awaits (length (fetchLog st)), startLoad yr ?st')"
    by (rule retry [of "datasetRegistry ?st'", OF none])
  have other: "captured yr = None \<longrightarrow>
      fst (loadYear captured yr ?st') = Awaits (length (fetchLog st)) \<and>
      fetchLog (snd (loadYear captured yr ?st')) = fetchLog st @ [yr] \<and>
      outstanding (snd (loadYear captured yr ?st')) yr = 1"
    using retry [of captured] one app by simp
  from reg none infl load outstanding_settled [OF c assms(2)] live one app other
  show ?thesis by (simp del: step.simps)
qed


subsection \<open>Sample sessions\<close>

lemma sample_verified: "verifyYearMode sampleData yr = Some True"
  by (simp add: verifyYearMode_def datedYears_def sampleData_def sampleRecord_def)

lemma run_snoc: "run st (es @ [e]) = step (run st es) e"
  by (simp add: run_def)

lemma trace_session:
  "run initialState sampleSession =
     \<lparr> datasetRegistry = [2023 \<mapsto> sampleData], loadingYears = {2024},
       inflightRequests = [2024 \<mapsto> 1], pendingFetches = [(1, 2024)],
       fetchLog = [2023, 2024], alerts = [] \<rparr>"
  by (simp add: sampleSession_def run_def loadYear_def startLoad_def initialState_def settle_def
      sample_verified storeLoaded_def finallyClear_def)

lemma trace_loaded:
  "datasetRegistry (run initialState loadedSession) = [2023 \<mapsto> sampleData, 2024 \<mapsto> sampleData]"
  "inflightRequests (run initialState loadedSession) 2024 = None"
  "pendingFetches (run initialState loadedSession) = []"
  "fetchLog (run initialState loadedSession) = [2023, 2024]"
  using trace_session run_snoc [of initialState sampleSession "FetchSettles 1 (Inr sampleData)"]
  by (simp_all add: loadedSession_def settle_def sample_verified storeLoaded_def finallyClear_def)

text \<open>
  C3 says that once a year is cached no call of \<open>loadYear\<close> for it fetches again. In the
  session below 2023 is cached and the component renders; a load of 2024 is started
  through the \<open>loadYear\<close> of that render and its fetch succeeds, which writes 2024 to the
  registry and clears the in-flight marker. A second call through the same \<open>loadYear\<close>,
  whose captured registry is the one of that render and holds no 2024, passes the cache
  check, finds nothing in flight and issues a second fetch for 2024. The \<open>loadYear\<close> of a
  render that has seen the update returns at once.
\<close>

theorem stale_loadYear_fetches_again:
  "datasetRegistry (run initialState sampleSession) 2024 = None \<and>
   datasetRegistry (run initialState loadedSession) 2024 = Some sampleData \<and>
   fetchLog (run initialState loadedSession) = [2023, 2024] \<and>
   fst (loadYear (datasetRegistry (run initialState sampleSession)) 2024
          (run initialState loadedSession)) = Awaits 2 \<and>
   fetchLog (snd (loadYear (datasetRegistry (run initialState sampleSession)) 2024
                    (run initialState loadedSession))) = [2023, 2024, 2024] \<and>
   fetchesOf (snd (loadYear (datasetRegistry (run initialState sampleSession)) 2024
                     (run initialState loadedSession))) 2024 = 2 \<and>
   outstanding (snd (loadYear (datasetRegistry (run initialState sampleSession)) 2024
                       (run initialState loadedSession))) 2024 = 1 \<and>
   fst (loadYear (datasetRegistry (run initialState loadedSession)) 2024
          (run initialState loadedSession)) = Resolved"
proof -
  have stale: "datasetRegistry (run initialState sampleSession) 2024 = None"
    by (simp add: trace_session)
  then have "loadYear (datasetRegistry (run initialState sampleSession)) 2024
               (run initialState loadedSession) =
             (Awaits 2, startLoad 2024 (run initialState loadedSession))"
    by (simp add: loadYear_def trace_loaded)
  moreover have "fetchLog (startLoad 2024 (run initialState loadedSession)) = [2023, 2024, 2024]"
    "outstanding (startLoad 2024 (run initialState loadedSession)) 2024 = 1"
    by (simp_all add: startLoad_def outstanding_def trace_loaded)
  ultimately show ?thesis
    using stale by (simp add: trace_loaded loadYear_def fetchesOf_def)
qed


theorem failed_load_leaves_registry_witness:
  "(1, 2024) \<in> set (pendingFetches (run initialState sampleSession)) \<and>
   datasetRegistry (run initialState sampleSession) 2024 = None \<and>
   datasetRegistry (step (run initialState sampleSession)
       (FetchSettles 1 (Inl ''Failed to fetch data link''))) 2023 = Some sampleData \<and>
   datasetRegistry (step (run initialState sampleSession)
       (FetchSettles 1 (Inl ''Failed to fetch data link''))) 2024 = None \<and>
   inflightRequests (step (run initialState sampleSession)
       (FetchSettles 1 (Inl ''Failed to fetch data link''))) 2024 = None \<and>
   fst (loadYear (datasetRegistry (run initialState sampleSession)) 2024
          (step (run initialState sampleSession)
             (FetchSettles 1 (Inl ''Failed to fetch data link'')))) = Awaits 2 \<and>
   fetchLog (snd (loadYear (datasetRegistry (run initialState sampleSession)) 2024
                    (step (run initialState sampleSession)
                       (FetchSettles 1 (Inl ''Failed to fetch data link''))))) = [2023, 2024, 2024]"
proof -
  have p: "(1, 2024) \<in> set (pendingFetches (run initialState sampleSession))"
    by (simp add: trace_session)
  have r: "datasetRegistry (run initialState sampleSession) 2023 = Some sampleData"
    and n: "datasetRegistry (run initialState sampleSession) 2024 = None"
    and l: "fetchLog (run initialState sampleSession) = [2023, 2024]"
    by (simp_all add: trace_session)
  let ?st = "run initialState sampleSession"
  let ?st' = "step ?st (FetchSettles 1 (Inl ''Failed to fetch data link''))"
  from failed_load_leaves_registry [OF refl p, where err = "''Failed to fetch data link''"
      and outcome = "Inl ''Failed to fetch data link''" and captured = "datasetRegistry ?st"] n
  have a: "datasetRegistry ?st' = datasetRegistry ?st"
    and b: "datasetRegistry ?st' 2024 = None"
    and c: "inflightRequests ?st' 2024 = None"
    and d: "fst (loadYear (datasetRegistry ?st) 2024 ?st') = Awaits (length (fetchLog ?st))"
    and e: "fetchLog (snd (loadYear (datasetRegistry ?st) 2024 ?st')) = fetchLog ?st @ [2024]"
    by blast+
  from a r have "datasetRegistry ?st' 2023 = Some sampleData" by simp
  with p n b c d e l show ?thesis by (simp del: step.simps)
qed
end
